theory Spec2Isabelle
  imports Main
begin

section \<open>Dashport OAuth strategies: the URI codec\<close>

text \<open>
  The Spotify and GitHub strategy classes carry textually identical copies of
  \<^verbatim>\<open>constructURI\<close>, \<^verbatim>\<open>parseCode\<close>, \<^verbatim>\<open>router\<close> and \<^verbatim>\<open>authorize\<close>; each is
  embedded once.  A JavaScript string is a \<^typ>\<open>string\<close>.  An options object is the
  list of its entries in insertion order, with distinct keys; its values are
  strings, as the TypeScript interface \<^verbatim>\<open>Options\<close> declares.

  The third class in the Spotify source file, a scaffold for new strategies
  whose error handling is left as placeholders, and the type declarations are
  not embedded.
\<close>

type_synonym entries = "(string \<times> string) list"

subsection \<open>Object.entries\<close>

text \<open>
  \<^verbatim>\<open>Object.entries\<close> does not keep insertion order for every key: the keys
  that are array indices (the canonical decimal text of an integer from 0 to
  4294967294) come first, in ascending numeric order, and the other keys
  follow in insertion order.
\<close>

definition is_digit :: "char \<Rightarrow> bool" where
  "is_digit c = (c \<in> set ''0123456789'')"

definition digit_value :: "char \<Rightarrow> int" where
  "digit_value c = of_char c - 48"

definition index_value :: "string \<Rightarrow> int" where
  "index_value key = foldl (\<lambda>n c. 10 * n + digit_value c) 0 key"

definition is_array_index :: "string \<Rightarrow> bool" where
  "is_array_index key =
     (key \<noteq> [] \<and> list_all is_digit key \<and> (key = ''0'' \<or> hd key \<noteq> CHR ''0'')
      \<and> index_value key < 4294967295)"

definition object_entries :: "entries \<Rightarrow> entries" where
  "object_entries obj =
     sort_key (\<lambda>e. index_value (fst e)) (filter (\<lambda>e. is_array_index (fst e)) obj)
     @ filter (\<lambda>e. \<not> is_array_index (fst e)) obj"

subsection \<open>constructURI\<close>

text \<open>
  \<^verbatim>\<open>skip && skip.includes(key)\<close>: the skip array is optional; without it no key
  is skipped.
\<close>

definition skipped :: "string list option \<Rightarrow> string \<Rightarrow> bool" where
  "skipped skip key = (case skip of None \<Rightarrow> False | Some sk \<Rightarrow> key \<in> set sk)"

text \<open>
  The \<^verbatim>\<open>for\<close> loop over \<^verbatim>\<open>paramArray\<close>, with \<^verbatim>\<open>paramString\<close> as the
  accumulator.  \<^verbatim>\<open>value + '&'\<close> is string concatenation.
\<close>

fun constructURI_loop :: "entries \<Rightarrow> string list option \<Rightarrow> string \<Rightarrow> string" where
  "constructURI_loop [] skip paramString = paramString"
| "constructURI_loop ((key, val) # rest) skip paramString =
     (if skipped skip key then constructURI_loop rest skip paramString
      else constructURI_loop rest skip ((paramString @ (key @ ''='')) @ (val @ ''&'')))"

text \<open>
  After the loop one trailing \<^verbatim>\<open>&\<close> is removed.  On the empty string
  \<^verbatim>\<open>paramString[-1]\<close> is \<^verbatim>\<open>undefined\<close>, so the test fails and nothing is
  removed.
\<close>

definition constructURI :: "entries \<Rightarrow> string list option \<Rightarrow> string" where
  "constructURI opts skip =
     (let paramArray = object_entries opts;
          paramString = constructURI_loop paramArray skip []
      in if paramString \<noteq> [] \<and> last paramString = CHR ''&''
         then butlast paramString else paramString)"

text \<open>
  The specification's wording of the encoder, for comparison with the loop:
  the kept entries of a list, in the order of that list, each rendered
  \<^verbatim>\<open>key=value\<close>, joined by single ampersands.
\<close>

fun join_amp :: "string list \<Rightarrow> string" where
  "join_amp [] = []"
| "join_amp [x] = x"
| "join_amp (x # y # ys) = x @ ''&'' @ join_amp (y # ys)"

definition key_value :: "string \<times> string \<Rightarrow> string" where
  "key_value e = fst e @ ''='' @ snd e"

definition kept :: "string list option \<Rightarrow> entries \<Rightarrow> entries" where
  "kept skip opts = filter (\<lambda>e. \<not> skipped skip (fst e)) opts"

definition encode_spec :: "entries \<Rightarrow> string list option \<Rightarrow> string" where
  "encode_spec opts skip = join_amp (map key_value (kept skip opts))"

subsection \<open>parseCode\<close>

text \<open>
  \<^verbatim>\<open>s.includes(t)\<close>: \<^verbatim>\<open>t\<close> occurs in \<^verbatim>\<open>s\<close> at some position.
\<close>

fun str_includes :: "string \<Rightarrow> string \<Rightarrow> bool" where
  "str_includes [] t = (t = [])"
| "str_includes (c # cs) t = (take (length t) (c # cs) = t \<or> str_includes cs t)"

text \<open>
  \<^verbatim>\<open>s.replace(t, r)\<close> with a string pattern: the leftmost occurrence of
  \<^verbatim>\<open>t\<close> is replaced, nothing else.  None of the replacement strings of the
  table below holds a \<^verbatim>\<open>$\<close>-pattern (\<^verbatim>\<open>$$\<close>, \<^verbatim>\<open>$&\<close>, ...): the lone
  \<^verbatim>\<open>$\<close> is inserted as it is.
\<close>

fun str_replace :: "string \<Rightarrow> string \<Rightarrow> string \<Rightarrow> string" where
  "str_replace [] t r = (if t = [] then r else [])"
| "str_replace (c # cs) t r =
     (if take (length t) (c # cs) = t then r @ drop (length t) (c # cs)
      else c # str_replace cs t r)"

text \<open>
  The table, in the order of the object literal; \<^verbatim>\<open>Object.keys\<close> keeps that
  order.  Reading an absent key gives \<^verbatim>\<open>undefined\<close>, which \<^verbatim>\<open>replace\<close>
  would insert as the text \<^verbatim>\<open>undefined\<close>.
\<close>

definition replacements :: "(string \<times> string) list" where
  "replacements =
     [(''%24'', ''$''), (''%26'', ''&''), (''%2B'', ''+''), (''%2C'', '',''),
      (''%2F'', ''/''), (''%3A'', '':''), (''%3B'', '';''), (''%3D'', ''=''),
      (''%3F'', ''?''), (''%40'', ''@'')]"

definition toReplaceArray :: "string list" where
  "toReplaceArray = map fst replacements"

definition replacement_of :: "string \<Rightarrow> string" where
  "replacement_of key = (case map_of replacements key of Some r \<Rightarrow> r | None \<Rightarrow> ''undefined'')"

text \<open>
  The characters the table is made of: those after the \<^verbatim>\<open>%\<close> of an entry,
  and the literal characters the entries stand for.
\<close>

definition code_char :: "char \<Rightarrow> bool" where
  "code_char c = (c \<in> set ''2346ABCDF0'')"

definition literal_char :: "char \<Rightarrow> bool" where
  "literal_char c = (c \<in> set ''$&+,/:;=?@'')"

text \<open>
  Each replacement shortens the string, which is what makes the inner
  \<^verbatim>\<open>while\<close> loop stop.
\<close>

lemma str_replace_length:
  "str_includes s t \<Longrightarrow> length (str_replace s t r) + length t = length s + length r"
proof (induction s)
  case Nil
  then show ?case by simp
next
  case (Cons c cs)
  show ?case
  proof (cases "take (length t) (c # cs) = t")
    case True
    then have "length (take (length t) (c # cs)) = length t" by simp
    then have "length t \<le> length (c # cs)" by simp
    with True show ?thesis by simp
  next
    case False
    with Cons show ?thesis by simp
  qed
qed

lemma replacements_Some:
  assumes "map_of replacements u = Some r"
  shows "\<exists>a b l. u = [CHR ''%'', a, b] \<and> r = [l] \<and> code_char a \<and> code_char b \<and> literal_char l"
proof -
  from assms have "(u, r) \<in> set replacements" by (rule map_of_SomeD)
  then have "length u = 3 \<and> hd u = CHR ''%'' \<and> code_char (u ! 1) \<and> code_char (u ! 2)
      \<and> length r = 1 \<and> literal_char (hd r)"
    unfolding replacements_def
    apply (simp only: list.set insert_iff empty_iff prod.inject)
    apply (elim disjE conjE)
    apply (simp_all add: code_char_def literal_char_def)
    done
  then show ?thesis
    by (cases u; cases r) (auto simp: length_Suc_conv eval_nat_numeral)
qed

lemma code_char_not_percent: "code_char a \<Longrightarrow> a \<noteq> CHR ''%''"
  by (auto simp: code_char_def)

lemma literal_char_facts: "literal_char l \<Longrightarrow> l \<noteq> CHR ''%'' \<and> \<not> code_char l"
  by (auto simp: code_char_def literal_char_def)

lemma toReplaceArray_key:
  "i < length toReplaceArray \<Longrightarrow>
     map_of replacements (toReplaceArray ! i) = Some (replacement_of (toReplaceArray ! i))"
proof -
  assume "i < length toReplaceArray"
  then have "toReplaceArray ! i \<in> fst ` set replacements"
    unfolding toReplaceArray_def by (metis nth_mem set_map)
  then have "map_of replacements (toReplaceArray ! i) \<noteq> None"
    by (simp add: map_of_eq_None_iff)
  then show ?thesis by (auto simp: replacement_of_def)
qed

lemma toReplaceArray_shape:
  assumes "i < length toReplaceArray"
  shows "length (toReplaceArray ! i) = 3 \<and> length (replacement_of (toReplaceArray ! i)) = 1"
proof -
  from replacements_Some [OF toReplaceArray_key [OF assms]] obtain a b l where
    "toReplaceArray ! i = [CHR ''%'', a, b]" "replacement_of (toReplaceArray ! i) = [l]"
    by blast
  then show ?thesis by simp
qed

text \<open>
  The \<^verbatim>\<open>for\<close> loop over the table with the \<^verbatim>\<open>while\<close> loop inside it:
  \<^verbatim>\<open>i\<close> is the loop index, the string is the variable \<^verbatim>\<open>encodedCode\<close>.
  The function is total: the termination proof orders the states by the
  remaining table entries, then by the length of the string.
\<close>

function parseCode_loop :: "nat \<Rightarrow> string \<Rightarrow> string" where
  "parseCode_loop i encodedCode =
     (if i < length toReplaceArray then
        (if str_includes encodedCode (toReplaceArray ! i)
         then parseCode_loop i
                (str_replace encodedCode (toReplaceArray ! i) (replacement_of (toReplaceArray ! i)))
         else parseCode_loop (Suc i) encodedCode)
      else encodedCode)"
  by pat_completeness auto
termination
proof (relation "measures [\<lambda>(i, s). length toReplaceArray - i, \<lambda>(i, s). length s]")
  show "wf (measures [\<lambda>(i, s). length toReplaceArray - i, \<lambda>(i, s). length s])" by simp
next
  fix i :: nat and encodedCode :: string
  assume i: "i < length toReplaceArray"
    and inc: "str_includes encodedCode (toReplaceArray ! i)"
  from str_replace_length [OF inc, of "replacement_of (toReplaceArray ! i)"]
    toReplaceArray_shape [OF i]
  show "((i, str_replace encodedCode (toReplaceArray ! i) (replacement_of (toReplaceArray ! i))),
         (i, encodedCode))
        \<in> measures [\<lambda>(i, s). length toReplaceArray - i, \<lambda>(i, s). length s]"
    by simp
next
  fix i :: nat and encodedCode :: string
  assume "i < length toReplaceArray"
  then show "((Suc i, encodedCode), (i, encodedCode))
        \<in> measures [\<lambda>(i, s). length toReplaceArray - i, \<lambda>(i, s). length s]"
    by simp
qed

definition parseCode :: "string \<Rightarrow> string" where
  "parseCode encodedCode = parseCode_loop 0 encodedCode"

text \<open>
  The specification's wording of the decoder, for comparison with the loop:
  one pass from left to right, in which every occurrence of a table entry
  becomes its literal character and every other character stays.
\<close>

fun decode_spec :: "string \<Rightarrow> string" where
  "decode_spec [] = []"
| "decode_spec (c # cs) =
     (case map_of replacements (take 3 (c # cs)) of
        Some r \<Rightarrow> r @ decode_spec (drop 2 cs)
      | None \<Rightarrow> c # decode_spec cs)"

section \<open>JavaScript values and the host\<close>

text \<open>
  Values the strategies read from parsed JSON, return to the host, or throw.
  A number is carried as the text that string conversion gives for it.  An
  object is the list of its own entries (distinct keys).  \<open>JError name message\<close>
  is an \<^verbatim>\<open>Error\<close> object.
\<close>

datatype jsval =
    JUndefined
  | JNull
  | JBool bool
  | JNum string
  | JStr string
  | JArr "jsval list"
  | JObj "(string \<times> jsval) list"
  | JError string string

text \<open>How an \<^verbatim>\<open>async\<close> method ends: its promise resolves with a value, or rejects.\<close>

datatype completion = Return jsval | Throw jsval

fun join_comma :: "string list \<Rightarrow> string" where
  "join_comma [] = []"
| "join_comma [x] = x"
| "join_comma (x # y # ys) = x @ '','' @ join_comma (y # ys)"

text \<open>
  String conversion, as template literals and \<^verbatim>\<open>+\<close> with a string apply it.
  It can throw.  An object converts through its \<^verbatim>\<open>toString\<close> property; an
  object that has an own entry \<^verbatim>\<open>toString\<close> (for parsed JSON never a
  function) hides the inherited method, \<^verbatim>\<open>valueOf\<close> gives no primitive
  either, and the conversion throws a \<^verbatim>\<open>TypeError\<close>.  An array converts its
  elements, so it throws when one of them does.
\<close>

fun str_throws :: "jsval \<Rightarrow> bool" where
  "str_throws (JObj kvs) = (map_of kvs ''toString'' \<noteq> None)"
| "str_throws (JArr xs) = (\<exists>x \<in> set xs. str_throws x)"
| "str_throws v = False"

definition conversion_error :: jsval where
  "conversion_error = JError ''TypeError'' ''Cannot convert object to primitive value''"

text \<open>
  The text of a conversion that does not throw.  An array joins its elements
  with commas, \<^verbatim>\<open>null\<close> and \<^verbatim>\<open>undefined\<close> elements giving the empty
  text; an object without own \<^verbatim>\<open>toString\<close> gives \<^verbatim>\<open>[object Object]\<close>.
\<close>

fun str_text :: "jsval \<Rightarrow> string" where
  "str_text JUndefined = ''undefined''"
| "str_text JNull = ''null''"
| "str_text (JBool b) = (if b then ''true'' else ''false'')"
| "str_text (JNum r) = r"
| "str_text (JStr s) = s"
| "str_text (JArr xs) =
     join_comma (map (\<lambda>x. if x = JUndefined \<or> x = JNull then [] else str_text x) xs)"
| "str_text (JObj kvs) = ''[object Object]''"
| "str_text (JError n m) = (if n = [] then m else if m = [] then n else n @ '': '' @ m)"

text \<open>The conversion: the \<^verbatim>\<open>TypeError\<close> it throws (\<open>Inl\<close>), or its text.\<close>

definition to_str :: "jsval \<Rightarrow> jsval + string" where
  "to_str v = (if str_throws v then Inl conversion_error else Inr (str_text v))"

definition nullish :: "jsval \<Rightarrow> bool" where
  "nullish v = (v = JUndefined \<or> v = JNull)"

text \<open>
  The \<^verbatim>\<open>TypeError\<close> of a property read on \<^verbatim>\<open>undefined\<close> or \<^verbatim>\<open>null\<close>
  (the message is the V8 engine's; it names the value, \<^verbatim>\<open>undefined\<close> or
  \<^verbatim>\<open>null\<close>).
\<close>

definition type_error_read :: "jsval \<Rightarrow> string \<Rightarrow> jsval" where
  "type_error_read v p =
     JError ''TypeError''
       (''Cannot read properties of '' @ str_text v @ '' (reading '' @ [CHR 0x27] @ p @ [CHR 0x27] @ '')'')"

text \<open>
  A property read \<^verbatim>\<open>v.p\<close>, for the property names this code reads
  (\<^verbatim>\<open>type\<close>, \<^verbatim>\<open>id\<close>, \<^verbatim>\<open>access_token\<close>, ...): an object gives the entry
  or \<^verbatim>\<open>undefined\<close>, a primitive or an array gives \<^verbatim>\<open>undefined\<close>.
\<close>

definition js_prop :: "jsval \<Rightarrow> string \<Rightarrow> jsval" where
  "js_prop v p =
     (case v of
        JObj kvs \<Rightarrow> (case map_of kvs p of Some x \<Rightarrow> x | None \<Rightarrow> JUndefined)
      | JError n m \<Rightarrow> (if p = ''name'' then JStr n else if p = ''message'' then JStr m else JUndefined)
      | _ \<Rightarrow> JUndefined)"

definition get_prop :: "jsval \<Rightarrow> string \<Rightarrow> completion" where
  "get_prop v p = (if nullish v then Throw (type_error_read v p) else Return (js_prop v p))"

text \<open>
  \<^verbatim>\<open>s.split(c)\<close> with a one-character separator: the segments between the
  separators, never an empty array.  \<^verbatim>\<open>xs[i]\<close> beyond the end is
  \<^verbatim>\<open>undefined\<close>, here \<open>None\<close>.
\<close>

fun split_char :: "char \<Rightarrow> string \<Rightarrow> string list" where
  "split_char sep [] = [[]]"
| "split_char sep (c # cs) =
     (if c = sep then [] # split_char sep cs
      else (case split_char sep cs of
              [] \<Rightarrow> [[c]]
            | seg # segs \<Rightarrow> (c # seg) # segs))"

definition nth_opt :: "'a list \<Rightarrow> nat \<Rightarrow> 'a option" where
  "nth_opt xs i = (if i < length xs then Some (xs ! i) else None)"

text \<open>
  Outbound requests (\<open>http_method\<close> is the \<^verbatim>\<open>method\<close> option, \<^verbatim>\<open>GET\<close> when absent).
  \<open>JsonBody obj\<close> stands for \<^verbatim>\<open>JSON.stringify(obj)\<close>: the
  body is kept as the object handed to the serialiser.
\<close>

datatype req_body = NoBody | TextBody string | JsonBody "(string \<times> jsval) list"

record request =
  http_method :: string
  url :: string
  headers :: "(string \<times> string) list"
  body :: req_body

text \<open>What a strategy does to the outside: redirect the browser, or call \<^verbatim>\<open>fetch\<close>.\<close>

datatype event = Redirect string | Fetch request

text \<open>
  The capabilities the strategies use but do not implement.  \<open>fetch\<close> is
  \<^verbatim>\<open>fetch(url, options)\<close> followed by \<^verbatim>\<open>.json()\<close>: the parsed body, or the
  value either step rejects with.  \<open>base64\<close> is \<^verbatim>\<open>Base64.fromString(s).toString()\<close>.
\<close>

record env =
  fetch :: "request \<Rightarrow> completion"
  base64 :: "string \<Rightarrow> string"

type_synonym outcome = "event list \<times> completion"

section \<open>The OAuth strategies\<close>

record strategy =
  name :: string
  options :: entries
  uriFromParams :: string
  authURL :: string
  tokenURL :: string
  authDataURL :: string

text \<open>\<^verbatim>\<open>!options.key\<close> is false exactly for a present, non-empty string.\<close>

definition truthy :: "string option \<Rightarrow> bool" where
  "truthy v = (case v of None \<Rightarrow> False | Some s \<Rightarrow> s \<noteq> [])"

text \<open>
  \<^verbatim>\<open>this.options.key\<close> as a value: a string, or \<^verbatim>\<open>undefined\<close>.  Its string
  conversion cannot throw.
\<close>

definition option_val :: "entries \<Rightarrow> string \<Rightarrow> jsval" where
  "option_val opts key = (case map_of opts key of None \<Rightarrow> JUndefined | Some v \<Rightarrow> JStr v)"

subsection \<open>Constructors\<close>

text \<open>A constructor returns the instance, or the \<^verbatim>\<open>Error\<close> it throws (\<open>Inl\<close>).\<close>

definition SpotifyStrategy :: "entries \<Rightarrow> jsval + strategy" where
  "SpotifyStrategy opts =
     (if \<not> truthy (map_of opts ''client_id'') \<or> \<not> truthy (map_of opts ''redirect_uri'')
         \<or> \<not> truthy (map_of opts ''state'') \<or> \<not> truthy (map_of opts ''client_secret'')
      then Inl (JError ''Error'' ''ERROR in SpotifyStrategy constructor: Missing required arguments'')
      else Inr \<lparr> name = ''spotify'', options = opts,
                 uriFromParams = constructURI opts (Some [''client_secret'']),
                 authURL = ''https://accounts.spotify.com/authorize?'',
                 tokenURL = ''https://accounts.spotify.com/api/token?'',
                 authDataURL = ''https://api.spotify.com/v1/me?'' \<rparr>)"

definition GitHubStrategy :: "entries \<Rightarrow> jsval + strategy" where
  "GitHubStrategy opts =
     (if \<not> truthy (map_of opts ''client_id'') \<or> \<not> truthy (map_of opts ''redirect_uri'')
         \<or> \<not> truthy (map_of opts ''client_secret'')
      then Inl (JError ''Error'' ''ERROR in GitHubStrategy constructor: Missing required arguments'')
      else Inr \<lparr> name = ''github'', options = opts,
                 uriFromParams = constructURI opts None,
                 authURL = ''https://github.com/login/oauth/authorize?'',
                 tokenURL = ''https://github.com/login/oauth/access_token?'',
                 authDataURL = ''https://api.github.com/user?'' \<rparr>)"

subsection \<open>Step 1: authorize\<close>

definition authorize :: "strategy \<Rightarrow> outcome" where
  "authorize S = ([Redirect (authURL S @ uriFromParams S)], Return JUndefined)"

subsection \<open>Step 3: the authorization code\<close>

text \<open>
  The lines of \<^verbatim>\<open>getAuthToken\<close> that extract the code, the same in both
  classes: \<^verbatim>\<open>URI1 = OGURI.split('=')\<close>, \<^verbatim>\<open>URI2 = URI1[1].split('&')\<close>,
  \<^verbatim>\<open>code = this.parseCode(URI2[0])\<close>.  A method call on \<^verbatim>\<open>undefined\<close>
  throws; these lines stand outside every \<^verbatim>\<open>try\<close>.
\<close>

definition extract_code :: "string \<Rightarrow> jsval + string" where
  "extract_code OGURI =
     (let URI1 = split_char CHR ''='' OGURI in
      case nth_opt URI1 1 of
        None \<Rightarrow> Inl (type_error_read JUndefined ''split'')
      | Some u \<Rightarrow>
          (let URI2 = split_char CHR ''&'' u in
           case nth_opt URI2 0 of
             None \<Rightarrow> Inl (type_error_read JUndefined ''includes'')
           | Some raw \<Rightarrow> Inr (parseCode raw)))"

text \<open>
  The specification's wording of the raw code, for comparison with
  \<open>extract_code\<close>: the segment between the first \<^verbatim>\<open>=\<close> and the first
  \<^verbatim>\<open>&\<close> after it.
\<close>

definition code_segment_spec :: "string \<Rightarrow> string" where
  "code_segment_spec q =
     takeWhile (\<lambda>c. c \<noteq> CHR ''&'') (drop 1 (dropWhile (\<lambda>c. c \<noteq> CHR ''='') q))"

subsection \<open>Step 4: the profile\<close>

text \<open>
  A \<^verbatim>\<open>catch\<close> clause that returns \<^verbatim>\<open>new Error(`... ${err}`)\<close>: the caught
  value is converted to a string inside the clause, and when that conversion
  throws, nothing catches it and the method rejects.
\<close>

definition caught :: "(jsval \<Rightarrow> jsval) \<Rightarrow> jsval \<Rightarrow> completion" where
  "caught make_error err =
     (case to_str err of Inl e \<Rightarrow> Throw e | Inr _ \<Rightarrow> Return (make_error err))"

definition auth_data_error :: "jsval \<Rightarrow> jsval" where
  "auth_data_error err =
     JError ''Error'' (''ERROR in getAuthData: Unable to obtain auth data - '' @ str_text err)"

definition spotify_tokenData :: "jsval \<Rightarrow> (string \<times> jsval) list" where
  "spotify_tokenData parsed =
     [(''access_token'', js_prop parsed ''access_token''),
      (''token_type'', js_prop parsed ''token_type''),
      (''scope'', js_prop parsed ''scope''),
      (''expires_in'', js_prop parsed ''expires_in''),
      (''refresh_token'', js_prop parsed ''refresh_token'')]"

text \<open>
  \<^verbatim>\<open>authOptions\<close> holds the same five entries as \<^verbatim>\<open>tokenData\<close>.
  \<^verbatim>\<open>constructURI\<close> converts each value to a string when it appends it
  (\<^verbatim>\<open>value + '&'\<close>), inside the \<^verbatim>\<open>try\<close> block: the first conversion that
  throws ends the loop with the \<^verbatim>\<open>TypeError\<close>.
\<close>

fun to_str_entries :: "(string \<times> jsval) list \<Rightarrow> jsval + entries" where
  "to_str_entries [] = Inr []"
| "to_str_entries ((key, val) # rest) =
     (case to_str val of
        Inl err \<Rightarrow> Inl err
      | Inr txt \<Rightarrow>
          (case to_str_entries rest of
             Inl err \<Rightarrow> Inl err
           | Inr es \<Rightarrow> Inr ((key, txt) # es)))"

text \<open>The entries when no conversion throws: each value replaced by its text.\<close>

definition text_entries :: "(string \<times> jsval) list \<Rightarrow> entries" where
  "text_entries kvs = map (\<lambda>e. (fst e, str_text (snd e))) kvs"

definition spotify_profile_request :: "strategy \<Rightarrow> entries \<Rightarrow> request" where
  "spotify_profile_request S authOptions =
     \<lparr> http_method = ''GET'', url = authDataURL S @ constructURI authOptions None,
       headers = [], body = NoBody \<rparr>"

definition spotify_getAuthData :: "env \<Rightarrow> strategy \<Rightarrow> jsval \<Rightarrow> outcome" where
  "spotify_getAuthData E S parsed =
     (if nullish parsed then ([], Throw (type_error_read parsed ''access_token''))
      else
        (case to_str_entries (spotify_tokenData parsed) of
           Inl err \<Rightarrow> ([], caught auth_data_error err)
         | Inr authOptions \<Rightarrow>
             (let req = spotify_profile_request S authOptions in
              case fetch E req of
                Throw err \<Rightarrow> ([Fetch req], caught auth_data_error err)
              | Return data \<Rightarrow>
                  (case get_prop data ''id'' of
                     Throw err \<Rightarrow> ([Fetch req], caught auth_data_error err)
                   | Return ident \<Rightarrow>
                       ([Fetch req],
                        Return (JObj [(''tokenData'', JObj (spotify_tokenData parsed)),
                                      (''userInfo'', JObj [(''provider'', JStr (name S)),
                                                           (''providerUserId'', ident)])]))))))"

definition github_tokenData :: "jsval \<Rightarrow> (string \<times> jsval) list" where
  "github_tokenData parsed =
     [(''access_token'', js_prop parsed ''access_token''),
      (''scope'', js_prop parsed ''scope''),
      (''token_type'', js_prop parsed ''token_type'')]"

text \<open>
  The request header is the template literal \<^verbatim>\<open>`token ${access_token}`\<close>,
  built inside the \<^verbatim>\<open>try\<close> block; \<open>token\<close> is the text of the access token.
\<close>

definition github_profile_request :: "string \<Rightarrow> request" where
  "github_profile_request token =
     \<lparr> http_method = ''GET'', url = ''https://api.github.com/user'',
       headers = [(''Authorization'', ''token '' @ token)],
       body = NoBody \<rparr>"

definition github_getAuthData :: "env \<Rightarrow> strategy \<Rightarrow> jsval \<Rightarrow> outcome" where
  "github_getAuthData E S parsed =
     (if nullish parsed then ([], Throw (type_error_read parsed ''access_token''))
      else
        (case to_str (js_prop parsed ''access_token'') of
           Inl err \<Rightarrow> ([], caught auth_data_error err)
         | Inr token \<Rightarrow>
             (let req = github_profile_request token in
              case fetch E req of
                Throw err \<Rightarrow> ([Fetch req], caught auth_data_error err)
              | Return data \<Rightarrow>
                  (case get_prop data ''id'' of
                     Throw err \<Rightarrow> ([Fetch req], caught auth_data_error err)
                   | Return ident \<Rightarrow>
                       ([Fetch req],
                        Return (JObj [(''tokenData'', JObj (github_tokenData parsed)),
                                      (''userInfo'',
                                       JObj [(''provider'', JStr (name S)),
                                             (''providerUserId'', ident),
                                             (''displayName'', js_prop data ''login''),
                                             (''name'', JObj [(''familyName'', js_prop data ''name'')]),
                                             (''emails'', JArr [js_prop data ''email''])])]))))))"

subsection \<open>Step 3.5: the token exchange\<close>

definition callback_error :: jsval where
  "callback_error =
     JError ''Error'' ''ERROR in getAuthToken: Received an error from auth token code request.''"

definition oauth_exception_error :: jsval where
  "oauth_exception_error =
     JError ''Error'' ''ERROR in getAuthToken: Token request threw OAuth exception.''"

definition token_error :: "jsval \<Rightarrow> jsval" where
  "token_error err =
     JError ''Error'' (''ERROR in getAuthToken: Unable to obtain token - '' @ str_text err)"

definition spotify_token_request :: "env \<Rightarrow> strategy \<Rightarrow> string \<Rightarrow> request" where
  "spotify_token_request E S code =
     \<lparr> http_method = ''POST'', url = tokenURL S,
       headers =
         [(''Authorization'',
           ''Basic '' @ base64 E (str_text (option_val (options S) ''client_id'') @ '':''
                                   @ str_text (option_val (options S) ''client_secret''))),
          (''Content-Type'', ''application/x-www-form-urlencoded'')],
       body = TextBody (constructURI
                 [(''grant_type'', ''authorization_code''),
                  (''code'', code),
                  (''redirect_uri'', str_text (option_val (options S) ''redirect_uri''))] None) \<rparr>"

definition github_token_request :: "strategy \<Rightarrow> string \<Rightarrow> request" where
  "github_token_request S code =
     \<lparr> http_method = ''POST'', url = ''https://github.com/login/oauth/access_token'',
       headers = [(''Accept'', ''application/json''), (''Content-Type'', ''application/json'')],
       body = JsonBody [(''client_id'', option_val (options S) ''client_id''),
                        (''client_secret'', option_val (options S) ''client_secret''),
                        (''redirect_uri'', option_val (options S) ''redirect_uri''),
                        (''code'', JStr code)] \<rparr>"

text \<open>
  The \<^verbatim>\<open>try\<close> block of \<^verbatim>\<open>getAuthToken\<close>: a rejected fetch and a failing read
  of \<^verbatim>\<open>data.type\<close> are caught; \<^verbatim>\<open>return this.getAuthData(data)\<close> hands the
  inner promise on without awaiting it, so what \<^verbatim>\<open>getAuthData\<close> throws is not
  caught here.  The \<^verbatim>\<open>catch\<close> clause is \<open>caught\<close>.
\<close>

definition exchange :: "env \<Rightarrow> request \<Rightarrow> (jsval \<Rightarrow> outcome) \<Rightarrow> outcome" where
  "exchange E req getAuthData =
     (case fetch E req of
        Throw err \<Rightarrow> ([Fetch req], caught token_error err)
      | Return data \<Rightarrow>
          (case get_prop data ''type'' of
             Throw err \<Rightarrow> ([Fetch req], caught token_error err)
           | Return ty \<Rightarrow>
               if ty = JStr ''oAuthException'' then ([Fetch req], Return oauth_exception_error)
               else (case getAuthData data of (evs, r) \<Rightarrow> (Fetch req # evs, r))))"

definition spotify_getAuthToken :: "env \<Rightarrow> strategy \<Rightarrow> string \<Rightarrow> outcome" where
  "spotify_getAuthToken E S OGURI =
     (if str_includes OGURI ''error'' then ([], Return callback_error)
      else case extract_code OGURI of
             Inl err \<Rightarrow> ([], Throw err)
           | Inr code \<Rightarrow> exchange E (spotify_token_request E S code) (spotify_getAuthData E S))"

definition github_getAuthToken :: "env \<Rightarrow> strategy \<Rightarrow> string \<Rightarrow> outcome" where
  "github_getAuthToken E S OGURI =
     (if str_includes OGURI ''error'' then ([], Return callback_error)
      else case extract_code OGURI of
             Inl err \<Rightarrow> ([], Throw err)
           | Inr code \<Rightarrow> exchange E (github_token_request S code) (github_getAuthData E S))"

subsection \<open>The entry point\<close>

text \<open>
  \<^verbatim>\<open>!search\<close> holds for the empty string only; \<^verbatim>\<open>search.slice(1, 5)\<close> is the
  up to four characters after the first.  With neither test true the method
  falls off its end and returns \<^verbatim>\<open>undefined\<close>.
\<close>

definition spotify_router :: "env \<Rightarrow> strategy \<Rightarrow> string \<Rightarrow> outcome" where
  "spotify_router E S search =
     (if search = [] then authorize S
      else if take 4 (drop 1 search) = ''code'' then spotify_getAuthToken E S search
      else ([], Return JUndefined))"

definition github_router :: "env \<Rightarrow> strategy \<Rightarrow> string \<Rightarrow> outcome" where
  "github_router E S search =
     (if search = [] then authorize S
      else if take 4 (drop 1 search) = ''code'' then github_getAuthToken E S search
      else ([], Return JUndefined))"

section \<open>The local strategy\<close>

text \<open>
  \<open>authorize_cb\<close> is the injected \<^verbatim>\<open>_authorize\<close> function.  The router is given
  what awaiting \<^verbatim>\<open>ctx.request.body(true).value\<close> produced: the body value, or
  the value that read rejected with.
\<close>

record local_strategy =
  local_name :: string
  usernameField :: jsval
  passwordField :: jsval
  authorize_cb :: "jsval \<Rightarrow> completion"

record local_options =
  usernamefield :: jsval
  passwordfield :: jsval
  authorize_opt :: "jsval \<Rightarrow> completion"

definition LocalStrategy :: "local_options \<Rightarrow> local_strategy" where
  "LocalStrategy opts =
     \<lparr> local_name = ''local'', usernameField = usernamefield opts,
       passwordField = passwordfield opts, authorize_cb = authorize_opt opts \<rparr>"

definition local_router_error :: jsval where
  "local_router_error =
     JError ''Error'' ''ERROR in router: No Username or Password submitted for authorization''"

definition local_router :: "local_strategy \<Rightarrow> completion \<Rightarrow> outcome" where
  "local_router L body_value =
     (case body_value of
        Throw err \<Rightarrow> ([], Return local_router_error)
      | Return userInfo \<Rightarrow>
          (case authorize_cb L userInfo of
             Throw err \<Rightarrow> ([], Return local_router_error)
           | Return userInfo' \<Rightarrow> ([], Return (JObj [(''userInfo'', userInfo')]))))"

section \<open>Sample inputs\<close>

text \<open>Concrete configurations, transports and callbacks for the worked examples.\<close>

definition github_sample_options :: entries where
  "github_sample_options =
     [(''client_id'', ''id123''), (''client_secret'', ''s3cr3t''),
      (''redirect_uri'', ''https://app.example/cb'')]"

definition spotify_sample_options :: entries where
  "spotify_sample_options =
     [(''client_id'', ''id123''), (''client_secret'', ''s3cr3t''),
      (''redirect_uri'', ''https://app.example/cb''), (''state'', ''st8'')]"

definition github_sample :: strategy where
  "github_sample = projr (GitHubStrategy github_sample_options)"

definition spotify_sample :: strategy where
  "spotify_sample = projr (SpotifyStrategy spotify_sample_options)"

text \<open>A transport on which every request fails.\<close>

definition offline_fetch :: "request \<Rightarrow> completion" where
  "offline_fetch req = Throw (JError ''TypeError'' ''error sending request'')"

text \<open>
  A transport that answers every \<^verbatim>\<open>POST\<close> with a token and every other
  request with a profile that has no \<^verbatim>\<open>id\<close>.
\<close>

definition sample_fetch :: "request \<Rightarrow> completion" where
  "sample_fetch req =
     (if http_method req = ''POST''
      then Return (JObj [(''access_token'', JStr ''tok''), (''token_type'', JStr ''bearer'')])
      else Return (JObj [(''login'', JStr ''octocat'')]))"

definition sample_base64 :: "string \<Rightarrow> string" where
  "sample_base64 s = ''b64('' @ s @ '')''"

definition offline_env :: env where
  "offline_env = \<lparr> fetch = offline_fetch, base64 = sample_base64 \<rparr>"

definition sample_env :: env where
  "sample_env = \<lparr> fetch = sample_fetch, base64 = sample_base64 \<rparr>"

definition rejecting_authorize :: "jsval \<Rightarrow> completion" where
  "rejecting_authorize credentials = Throw (JError ''Error'' ''invalid password'')"

definition accepting_authorize :: "jsval \<Rightarrow> completion" where
  "accepting_authorize credentials =
     Return (JObj [(''provider'', JStr ''local''), (''providerUserId'', JStr ''42'')])"

definition local_rejecting :: local_strategy where
  "local_rejecting =
     LocalStrategy \<lparr> usernamefield = JStr ''username'', passwordfield = JStr ''password'',
                     authorize_opt = rejecting_authorize \<rparr>"

definition local_accepting :: local_strategy where
  "local_accepting =
     LocalStrategy \<lparr> usernamefield = JStr ''username'', passwordfield = JStr ''password'',
                     authorize_opt = accepting_authorize \<rparr>"

definition sample_credentials :: jsval where
  "sample_credentials = JObj [(''username'', JStr ''ann''), (''password'', JStr ''pw'')]"

text \<open>A callback that reports failure by returning an \<^verbatim>\<open>Error\<close> instead of throwing it.\<close>

definition error_returning_authorize :: "jsval \<Rightarrow> completion" where
  "error_returning_authorize credentials = Return (JError ''Error'' ''invalid password'')"

definition local_error_returning :: local_strategy where
  "local_error_returning =
     LocalStrategy \<lparr> usernamefield = JStr ''username'', passwordfield = JStr ''password'',
                     authorize_opt = error_returning_authorize \<rparr>"

section \<open>Properties of the codec\<close>

lemma constructURI_loop_acc:
  "constructURI_loop opts skip acc =
     acc @ concat (map (\<lambda>e. key_value e @ ''&'') (kept skip opts))"
  by (induction opts skip acc rule: constructURI_loop.induct)
     (simp_all add: kept_def key_value_def)

lemma concat_amp_join:
  "es \<noteq> [] \<Longrightarrow> concat (map (\<lambda>e. e @ ''&'') es) = join_amp es @ ''&''"
  by (induction es rule: join_amp.induct) simp_all

lemma constructURI_encode_spec:
  "constructURI opts skip = encode_spec (object_entries opts) skip"
proof (cases "kept skip (object_entries opts) = []")
  case True
  then show ?thesis
    by (simp add: constructURI_def encode_spec_def constructURI_loop_acc)
next
  case False
  then have ne: "map key_value (kept skip (object_entries opts)) \<noteq> []" by simp
  have "constructURI_loop (object_entries opts) skip [] =
          concat (map (\<lambda>e. e @ ''&'') (map key_value (kept skip (object_entries opts))))"
    by (simp add: constructURI_loop_acc comp_def)
  also have "\<dots> = encode_spec (object_entries opts) skip @ ''&''"
    using concat_amp_join [OF ne] by (simp add: encode_spec_def)
  finally show ?thesis
    by (simp add: constructURI_def)
qed

text \<open>The order of \<^verbatim>\<open>Object.entries\<close>: a rearrangement, the identity without index keys.\<close>

lemma object_entries_plain:
  "\<forall>e \<in> set obj. \<not> is_array_index (fst e) \<Longrightarrow> object_entries obj = obj"
  by (simp add: object_entries_def filter_empty_conv)

lemma object_entries_rearranges:
  "set (object_entries obj) = set obj \<and> length (object_entries obj) = length obj"
proof -
  have "length (filter (\<lambda>e. is_array_index (fst e)) obj)
        + length (filter (\<lambda>e. \<not> is_array_index (fst e)) obj) = length obj"
    by (rule sum_length_filter_compl)
  then show ?thesis by (auto simp: object_entries_def)
qed

lemma object_entries_filter:
  "object_entries (filter P obj) = filter P (object_entries obj)"
  by (simp add: object_entries_def filter_sort conj_commute)

lemma not_array_index_letter:
  "\<not> is_digit c \<Longrightarrow> \<not> is_array_index (c # cs)"
  by (simp add: is_array_index_def)

lemma absent_char_not_at_ends: "x \<noteq> [] \<Longrightarrow> c \<notin> set x \<Longrightarrow> hd x \<noteq> c \<and> last x \<noteq> c"
  by (metis hd_in_set last_in_set)

lemma join_amp_shape:
  assumes "\<forall>x \<in> set es. x \<noteq> [] \<and> CHR ''&'' \<notin> set x"
  shows "count_list (join_amp es) (CHR ''&'') = length es - 1
         \<and> (es \<noteq> [] \<longrightarrow> join_amp es \<noteq> [] \<and> hd (join_amp es) \<noteq> CHR ''&''
                          \<and> last (join_amp es) \<noteq> CHR ''&'')"
  using assms
proof (induction es rule: join_amp.induct)
  case 1
  show ?case by simp
next
  case (2 x)
  then have x: "x \<noteq> []" "CHR ''&'' \<notin> set x" by simp_all
  with absent_char_not_at_ends [OF x] show ?case by simp
next
  case (3 x y ys)
  then have x: "x \<noteq> []" "CHR ''&'' \<notin> set x" by simp_all
  from 3 have ih: "count_list (join_amp (y # ys)) (CHR ''&'') = length (y # ys) - 1"
    "join_amp (y # ys) \<noteq> []" "last (join_amp (y # ys)) \<noteq> CHR ''&''"
    by simp_all
  from x have "count_list x (CHR ''&'') = 0" by simp
  with absent_char_not_at_ends [OF x] ih x show ?case by (simp add: hd_append)
qed

section \<open>The decoder loop against its specification\<close>

subsection \<open>One replacement step\<close>

lemma decode_spec_None:
  "map_of replacements (take 3 (c # cs)) = None \<Longrightarrow> decode_spec (c # cs) = c # decode_spec cs"
  by simp

lemma decode_spec_Some:
  "map_of replacements (take 3 (c # cs)) = Some r \<Longrightarrow>
     decode_spec (c # cs) = r @ decode_spec (drop 2 cs)"
  by simp

lemma str_replace_hit:
  "take (length t) (c # cs) = t \<Longrightarrow> str_replace (c # cs) t r = r @ drop (length t) (c # cs)"
  by simp

lemma str_replace_miss:
  "take (length t) (c # cs) \<noteq> t \<Longrightarrow> str_replace (c # cs) t r = c # str_replace cs t r"
  by simp

lemma take3_key_stable:
  assumes t: "map_of replacements t = Some r"
    and k: "map_of replacements (take 3 (c # str_replace cs t r)) = Some r'"
  shows "take 3 (c # str_replace cs t r) = take 3 (c # cs)"
proof -
  from replacements_Some [OF t] obtain a b l where
    t_eq: "t = [CHR ''%'', a, b]" and r_eq: "r = [l]" and l: "literal_char l"
    and ab: "code_char a" "code_char b" by blast
  from replacements_Some [OF k] obtain a' b' where
    k_eq: "take 3 (c # str_replace cs t r) = [CHR ''%'', a', b']"
    and ab': "code_char a'" "code_char b'" by blast
  from l have l': "l \<noteq> CHR ''%''" "\<not> code_char l" using literal_char_facts by auto
  note np = code_char_not_percent [OF ab'(1)] code_char_not_percent [OF ab'(2)]
    code_char_not_percent [OF ab(1)] code_char_not_percent [OF ab(2)]
  show ?thesis
  proof (cases cs)
    case Nil
    with k_eq t_eq show ?thesis by simp
  next
    case (Cons d ds)
    show ?thesis
    proof (cases "take (length t) cs = t")
      case True
      with k_eq t_eq r_eq Cons ab' l' np show ?thesis by (auto simp: eval_nat_numeral)
    next
      case False
      then have X: "str_replace cs t r = d # str_replace ds t r"
        using Cons t_eq by auto
      show ?thesis
      proof (cases ds)
        case Nil
        with X k_eq t_eq Cons show ?thesis by simp
      next
        case (Cons e es)
        show ?thesis
        proof (cases "take (length t) ds = t")
          case True
          with k_eq t_eq r_eq X Cons ab' l' np show ?thesis by (auto simp: eval_nat_numeral)
        next
          case False
          then have "str_replace ds t r = e # str_replace es t r"
            using Cons t_eq by auto
          with X \<open>cs = d # ds\<close> Cons show ?thesis by simp
        qed
      qed
    qed
  qed
qed



declare decode_spec.simps(2) [simp del]
declare str_replace.simps(2) [simp del]

lemma not_key_if_not_percent:
  "c \<noteq> CHR ''%'' \<Longrightarrow> map_of replacements (take 3 (c # cs)) = None"
proof (rule ccontr)
  assume c: "c \<noteq> CHR ''%''" and "map_of replacements (take 3 (c # cs)) \<noteq> None"
  then obtain r where "map_of replacements (take 3 (c # cs)) = Some r" by auto
  from replacements_Some [OF this] c show False by (auto simp: eval_nat_numeral)
qed

lemma str_replace_Nil_key:
  "map_of replacements t = Some r \<Longrightarrow> str_replace [] t r = []"
  using replacements_Some by fastforce

lemma decode_spec_str_replace:
  assumes t: "map_of replacements t = Some r"
  shows "decode_spec (str_replace s t r) = decode_spec s"
proof (induction s rule: decode_spec.induct)
  case 1
  show ?case using str_replace_Nil_key [OF t] by simp
next
  case (2 c cs)
  from replacements_Some [OF t] obtain a b l where
    t_eq: "t = [CHR ''%'', a, b]" and r_eq: "r = [l]" and l: "literal_char l"
    and ab: "code_char a" "code_char b" by blast
  have len: "length t = 3" using t_eq by simp
  show ?case
  proof (cases "map_of replacements (take 3 (c # cs))")
    case None
    with t len have ne: "take (length t) (c # cs) \<noteq> t" by auto
    have "map_of replacements (take 3 (c # str_replace cs t r)) = None"
    proof (rule ccontr)
      assume "map_of replacements (take 3 (c # str_replace cs t r)) \<noteq> None"
      then obtain r' where k: "map_of replacements (take 3 (c # str_replace cs t r)) = Some r'"
        by auto
      from take3_key_stable [OF t k] k None show False by simp
    qed
    then have "decode_spec (c # str_replace cs t r) = c # decode_spec (str_replace cs t r)"
      by (rule decode_spec_None)
    also have "\<dots> = c # decode_spec cs" using "2.IH"(1) [OF None] by simp
    also have "\<dots> = decode_spec (c # cs)" using decode_spec_None [OF None] by simp
    finally show ?thesis using str_replace_miss [OF ne] by simp
  next
    case (Some r')
    from replacements_Some [OF Some] obtain a' b' l' where
      k_eq: "take 3 (c # cs) = [CHR ''%'', a', b']" and r'_eq: "r' = [l']"
      and ab': "code_char a'" "code_char b'" by blast
    from k_eq obtain cs' where c: "c = CHR ''%''" and cs: "cs = a' # b' # cs'"
      by (cases cs; cases "tl cs") (auto simp: eval_nat_numeral)
    have d2: "drop 2 cs = cs'" using cs by (simp add: eval_nat_numeral)
    have lhs: "decode_spec (c # cs) = r' @ decode_spec cs'"
      using decode_spec_Some [OF Some] d2 by simp
    show ?thesis
    proof (cases "take (length t) (c # cs) = t")
      case True
      with len k_eq have "t = [CHR ''%'', a', b']" by simp
      with t Some k_eq have rr: "r = r'" by simp
      from str_replace_hit [OF True] len cs have "str_replace (c # cs) t r = l # cs'"
        by (simp add: eval_nat_numeral r_eq)
      moreover have "decode_spec (l # cs') = l # decode_spec cs'"
        using not_key_if_not_percent [of l cs'] literal_char_facts [OF l]
        by (simp add: decode_spec_None)
      ultimately show ?thesis using lhs rr r_eq by simp
    next
      case False
      have np: "a' \<noteq> CHR ''%''" "b' \<noteq> CHR ''%''"
        using ab' code_char_not_percent by auto
      have "str_replace (c # cs) t r = c # str_replace cs t r"
        using False by (rule str_replace_miss)
      also have "str_replace cs t r = a' # str_replace (b' # cs') t r"
        unfolding cs using np t_eq by (intro str_replace_miss) auto
      also have "str_replace (b' # cs') t r = b' # str_replace cs' t r"
        using np t_eq by (intro str_replace_miss) auto
      finally have rep: "str_replace (c # cs) t r = CHR ''%'' # a' # b' # str_replace cs' t r"
        using c by simp
      have "map_of replacements (take 3 (CHR ''%'' # a' # b' # str_replace cs' t r)) = Some r'"
        using Some k_eq by (simp add: eval_nat_numeral)
      from decode_spec_Some [OF this]
      have "decode_spec (CHR ''%'' # a' # b' # str_replace cs' t r)
          = r' @ decode_spec (str_replace cs' t r)"
        by (simp add: eval_nat_numeral)
      moreover have "decode_spec (str_replace cs' t r) = decode_spec cs'"
        using "2.IH"(2) [OF Some] d2 by simp
      ultimately show ?thesis using lhs rep by simp
    qed
  qed
qed


subsection \<open>Occurrences of table entries\<close>

lemma str_includes_Cons: "str_includes cs t \<Longrightarrow> str_includes (c # cs) t"
  by simp

lemma str_includes_drop: "str_includes (drop n s) t \<Longrightarrow> str_includes s t"
proof (induction n arbitrary: s)
  case 0
  then show ?case by simp
next
  case (Suc n)
  then show ?case by (cases s) (auto dest: str_includes_Cons)
qed

lemma decode_spec_fixed:
  "(\<And>t r. map_of replacements t = Some r \<Longrightarrow> \<not> str_includes s t) \<Longrightarrow> decode_spec s = s"
proof (induction s)
  case Nil
  show ?case by simp
next
  case (Cons c cs)
  have none: "map_of replacements (take 3 (c # cs)) = None"
  proof (rule ccontr)
    assume "map_of replacements (take 3 (c # cs)) \<noteq> None"
    then obtain r where k: "map_of replacements (take 3 (c # cs)) = Some r" by auto
    from replacements_Some [OF k] obtain a b where
      e: "take 3 (c # cs) = [CHR ''%'', a, b]" by blast
    have "length (take 3 (c # cs)) = 3" by (subst e) simp
    then have "take (length (take 3 (c # cs))) (c # cs) = take 3 (c # cs)"
      by (simp only:)
    then have "str_includes (c # cs) (take 3 (c # cs))"
      by (simp only: str_includes.simps simp_thms)
    with Cons.prems [OF k] show False by simp
  qed
  have "decode_spec cs = cs"
  proof (rule Cons.IH)
    fix t r assume "map_of replacements t = Some r"
    from Cons.prems [OF this] show "\<not> str_includes cs t" by auto
  qed
  with decode_spec_None [OF none] show ?case by simp
qed

lemma str_includes_str_replace:
  assumes t: "map_of replacements t = Some r" and t': "map_of replacements t' = Some r'"
  shows "str_includes (str_replace s t r) t' \<Longrightarrow> str_includes s t'"
proof (induction s)
  case Nil
  then show ?case using str_replace_Nil_key [OF t] by simp
next
  case (Cons c cs)
  from replacements_Some [OF t] obtain a b l where
    t_eq: "t = [CHR ''%'', a, b]" and r_eq: "r = [l]" and l: "literal_char l" by blast
  from replacements_Some [OF t'] obtain a' b' where
    t'_eq: "t' = [CHR ''%'', a', b']" by blast
  have len: "length t = 3" "length t' = 3" using t_eq t'_eq by simp_all
  show ?case
  proof (cases "take (length t) (c # cs) = t")
    case True
    from Cons.prems str_replace_hit [OF True] r_eq
    have "str_includes (l # drop (length t) (c # cs)) t'" by simp
    moreover have "take (length t') (l # drop (length t) (c # cs)) \<noteq> t'"
      using t'_eq literal_char_facts [OF l] by (auto simp: eval_nat_numeral)
    ultimately have "str_includes (drop (length t) (c # cs)) t'" by simp
    then show ?thesis by (rule str_includes_drop)
  next
    case False
    with Cons.prems have inc: "str_includes (c # str_replace cs t r) t'"
      by (simp add: str_replace_miss)
    show ?thesis
    proof (cases "take (length t') (c # str_replace cs t r) = t'")
      case True
      with len t' have "map_of replacements (take 3 (c # str_replace cs t r)) = Some r'"
        by simp
      from take3_key_stable [OF t this] True len
      have "take (length t') (c # cs) = t'" by simp
      then show ?thesis by simp
    next
      case False
      with inc have "str_includes (str_replace cs t r) t'" by simp
      then have "str_includes cs t'" by (rule Cons.IH)
      then show ?thesis by simp
    qed
  qed
qed

subsection \<open>The loop\<close>

lemma key_in_toReplaceArray:
  "map_of replacements t = Some r \<Longrightarrow> \<exists>k < length toReplaceArray. toReplaceArray ! k = t"
proof -
  assume "map_of replacements t = Some r"
  then have "t \<in> set toReplaceArray"
    unfolding toReplaceArray_def by (auto dest: map_of_SomeD intro: rev_image_eqI)
  then show ?thesis by (simp add: in_set_conv_nth)
qed

declare parseCode_loop.simps [simp del]

lemma parseCode_loop_decode_spec:
  "(\<And>k. k < i \<Longrightarrow> k < length toReplaceArray \<Longrightarrow> \<not> str_includes s (toReplaceArray ! k)) \<Longrightarrow>
     parseCode_loop i s = decode_spec s
     \<and> (\<forall>k < length toReplaceArray. \<not> str_includes (parseCode_loop i s) (toReplaceArray ! k))"
proof (induction i s rule: parseCode_loop.induct)
  case (1 i s)
  show ?case
  proof (cases "i < length toReplaceArray")
    case False
    then have res: "parseCode_loop i s = s" by (simp add: parseCode_loop.simps)
    have clean: "\<forall>k < length toReplaceArray. \<not> str_includes s (toReplaceArray ! k)"
      using "1.prems" False by auto
    have "decode_spec s = s"
    proof (rule decode_spec_fixed)
      fix t r assume "map_of replacements t = Some r"
      from key_in_toReplaceArray [OF this] clean show "\<not> str_includes s t" by auto
    qed
    with res clean show ?thesis by simp
  next
    case i: True
    let ?t = "toReplaceArray ! i"
    let ?r = "replacement_of ?t"
    note key = toReplaceArray_key [OF i]
    show ?thesis
    proof (cases "str_includes s ?t")
      case True
      have step: "parseCode_loop i s = parseCode_loop i (str_replace s ?t ?r)"
        using i True by (subst parseCode_loop.simps) simp
      have ih: "parseCode_loop i (str_replace s ?t ?r) = decode_spec (str_replace s ?t ?r)
        \<and> (\<forall>k < length toReplaceArray.
              \<not> str_includes (parseCode_loop i (str_replace s ?t ?r)) (toReplaceArray ! k))"
      proof (rule "1.IH"(1) [OF i True])
        fix k assume k: "k < i" "k < length toReplaceArray"
        show "\<not> str_includes (str_replace s ?t ?r) (toReplaceArray ! k)"
          using str_includes_str_replace [OF key toReplaceArray_key [OF k(2)]] "1.prems" [OF k]
          by blast
      qed
      have "parseCode_loop i s = decode_spec s"
        using step ih decode_spec_str_replace [OF key, of s] by simp
      moreover have "\<forall>k < length toReplaceArray.
          \<not> str_includes (parseCode_loop i s) (toReplaceArray ! k)"
        unfolding step using ih by blast
      ultimately show ?thesis by blast
    next
      case False
      have step: "parseCode_loop i s = parseCode_loop (Suc i) s"
        using i False by (subst parseCode_loop.simps) simp
      have "parseCode_loop (Suc i) s = decode_spec s
        \<and> (\<forall>k < length toReplaceArray.
              \<not> str_includes (parseCode_loop (Suc i) s) (toReplaceArray ! k))"
      proof (rule "1.IH"(2) [OF i False])
        fix k assume "k < Suc i" "k < length toReplaceArray"
        then show "\<not> str_includes s (toReplaceArray ! k)"
          using "1.prems" False by (cases "k = i") auto
      qed
      then show ?thesis unfolding step by blast
    qed
  qed
qed

lemma parseCode_decode_spec: "parseCode s = decode_spec s"
  using parseCode_loop_decode_spec [of 0 s] by (simp add: parseCode_def)

section \<open>Supporting lemmas for the flow\<close>

subsection \<open>The sample strategies\<close>

lemma sample_options_entries:
  "object_entries github_sample_options = github_sample_options"
  "object_entries spotify_sample_options = spotify_sample_options"
  by (simp_all add: object_entries_plain github_sample_options_def spotify_sample_options_def
      is_array_index_def is_digit_def)

lemma github_sample_simps:
  "name github_sample = ''github''"
  "options github_sample = github_sample_options"
  "uriFromParams github_sample = constructURI github_sample_options None"
  "authURL github_sample = ''https://github.com/login/oauth/authorize?''"
  by (simp_all add: github_sample_def GitHubStrategy_def github_sample_options_def truthy_def)

lemma spotify_sample_simps:
  "name spotify_sample = ''spotify''"
  "options spotify_sample = spotify_sample_options"
  "uriFromParams spotify_sample = constructURI spotify_sample_options (Some [''client_secret''])"
  "authURL spotify_sample = ''https://accounts.spotify.com/authorize?''"
  "tokenURL spotify_sample = ''https://accounts.spotify.com/api/token?''"
  "authDataURL spotify_sample = ''https://api.spotify.com/v1/me?''"
  by (simp_all add: spotify_sample_def SpotifyStrategy_def spotify_sample_options_def truthy_def)

subsection \<open>The Spotify redirect does not depend on the secret\<close>

lemma spotify_redirect_url:
  assumes "SpotifyStrategy opts = Inr S"
  shows "spotify_router E S [] =
     ([Redirect (''https://accounts.spotify.com/authorize?''
                 @ encode_spec (object_entries opts) (Some [''client_secret'']))],
      Return JUndefined)"
proof -
  from assms have "authURL S = ''https://accounts.spotify.com/authorize?''"
    and "uriFromParams S = constructURI opts (Some [''client_secret''])"
    by (auto simp: SpotifyStrategy_def split: if_splits)
  then show ?thesis
    by (simp add: spotify_router_def authorize_def constructURI_encode_spec)
qed

lemma spotify_redirect_ignores_client_secret:
  assumes "filter (\<lambda>e. fst e \<noteq> ''client_secret'') opts1
         = filter (\<lambda>e. fst e \<noteq> ''client_secret'') opts2"
    and "SpotifyStrategy opts1 = Inr S1" and "SpotifyStrategy opts2 = Inr S2"
  shows "spotify_router E1 S1 [] = spotify_router E2 S2 []"
proof -
  have "kept (Some [''client_secret'']) (object_entries opts1)
      = kept (Some [''client_secret'']) (object_entries opts2)"
  proof -
    have "filter (\<lambda>e. fst e \<noteq> ''client_secret'') (object_entries opts1)
        = object_entries (filter (\<lambda>e. fst e \<noteq> ''client_secret'') opts1)"
      by (simp only: object_entries_filter)
    also have "\<dots> = object_entries (filter (\<lambda>e. fst e \<noteq> ''client_secret'') opts2)"
      by (simp only: assms(1))
    also have "\<dots> = filter (\<lambda>e. fst e \<noteq> ''client_secret'') (object_entries opts2)"
      by (simp only: object_entries_filter)
    finally show ?thesis by (simp add: kept_def skipped_def)
  qed
  then show ?thesis
    using spotify_redirect_url [OF assms(2)] spotify_redirect_url [OF assms(3)]
    by (simp add: encode_spec_def)
qed

subsection \<open>Splitting the callback query\<close>

lemma split_char_not_Nil: "split_char c s \<noteq> []"
  by (induction s) (auto split: list.splits)

lemma split_char_first:
  "nth_opt (split_char c s) 0 = Some (takeWhile (\<lambda>x. x \<noteq> c) s)"
proof (induction s)
  case Nil
  show ?case by (simp add: nth_opt_def)
next
  case (Cons x xs)
  then show ?case
    using split_char_not_Nil [of c xs]
    by (auto simp: nth_opt_def split: list.splits if_splits)
qed

lemma split_char_second:
  "c \<notin> set p \<Longrightarrow> nth_opt (split_char c (p @ c # s)) 1 = Some (takeWhile (\<lambda>x. x \<noteq> c) s)"
proof (induction p)
  case Nil
  from split_char_first [of c s] show ?case
    using split_char_not_Nil [of c s] by (simp add: nth_opt_def)
next
  case (Cons x xs)
  then have "nth_opt (split_char c (xs @ c # s)) 1 = Some (takeWhile (\<lambda>x. x \<noteq> c) s)"
    by simp
  with Cons.prems show ?case
    by (auto simp: nth_opt_def split: list.splits if_splits)
qed

lemma split_char_no_separator: "c \<notin> set s \<Longrightarrow> split_char c s = [s]"
  by (induction s) auto

lemma extract_code_segment:
  assumes "CHR ''='' \<notin> set p"
  shows "extract_code (p @ ''='' @ s) =
           Inr (decode_spec (takeWhile (\<lambda>c. c \<noteq> CHR ''&'')
                               (takeWhile (\<lambda>c. c \<noteq> CHR ''='') s)))"
  using split_char_second [OF assms, of s]
  by (simp add: extract_code_def split_char_first parseCode_decode_spec)

lemma extract_code_codex: "extract_code ''?codex=1'' = Inr ''1''"
  using extract_code_segment [of "''?codex''" "''1''"]
  by (simp add: decode_spec.simps replacements_def)

text \<open>A query without any \<^verbatim>\<open>=\<close> makes the extraction throw.\<close>

lemma extract_code_throws:
  "CHR ''='' \<notin> set q \<Longrightarrow> extract_code q = Inl (type_error_read JUndefined ''split'')"
  by (simp add: extract_code_def split_char_no_separator nth_opt_def)

lemma getAuthToken_throws:
  assumes "CHR ''='' \<notin> set q" and "\<not> str_includes q ''error''"
  shows "spotify_getAuthToken E S q = ([], Throw (type_error_read JUndefined ''split''))"
    and "github_getAuthToken E S q = ([], Throw (type_error_read JUndefined ''split''))"
  using assms
  by (simp_all add: spotify_getAuthToken_def github_getAuthToken_def extract_code_throws)

text \<open>A caught \<^verbatim>\<open>Error\<close> object is returned inside the new error.\<close>

lemma error_objects_convert [simp]:
  "\<not> str_throws conversion_error" "\<not> str_throws (type_error_read v p)"
  by (simp_all add: conversion_error_def type_error_read_def)

lemma caught_JError [simp]: "caught make_error (JError n m) = Return (make_error (JError n m))"
  by (simp add: caught_def to_str_def)

lemma caught_conversion_error [simp]:
  "caught make_error conversion_error = Return (make_error conversion_error)"
  by (simp add: conversion_error_def)

lemma caught_type_error_read [simp]:
  "caught make_error (type_error_read v p) = Return (make_error (type_error_read v p))"
  by (simp add: type_error_read_def)

lemma exchange_starts_with_fetch:
  "\<exists>evs r. exchange E req g = (Fetch req # evs, r)"
  by (auto simp: exchange_def split: completion.splits prod.splits)

text \<open>The code exchange never ends like an unhandled request.\<close>

lemma getAuthToken_not_unhandled:
  "spotify_getAuthToken E S q \<noteq> ([], Return JUndefined)"
  "github_getAuthToken E S q \<noteq> ([], Return JUndefined)"
  using exchange_starts_with_fetch [of E "spotify_token_request E S (projr (extract_code q))"
      "spotify_getAuthData E S"]
    exchange_starts_with_fetch [of E "github_token_request S (projr (extract_code q))"
      "github_getAuthData E S"]
  by (auto simp: spotify_getAuthToken_def github_getAuthToken_def callback_error_def
      split: sum.splits)

subsection \<open>Converting the token fields\<close>

lemma to_str_entries_eq:
  "to_str_entries kvs =
     (if \<exists>e \<in> set kvs. str_throws (snd e) then Inl conversion_error
      else Inr (text_entries kvs))"
  by (induction kvs rule: to_str_entries.induct) (auto simp: to_str_def text_entries_def)

section \<open>The claims of the specification\<close>

subsection \<open>C1: the redirect and the client secret\<close>

text \<open>
  C1 says that the redirect issued for a request without query string goes to
  the authorize URL followed by the encoding of the options without
  \<^verbatim>\<open>client_secret\<close>, so that the secret never reaches the redirect URL.  The
  Spotify constructor passes the skip list \<^verbatim>\<open>['client_secret']\<close>
  (\<open>spotify_redirect_url\<close>, \<open>spotify_redirect_ignores_client_secret\<close>); the
  GitHub constructor calls \<^verbatim>\<open>constructURI(this.options)\<close> without it.  For the
  GitHub strategy built from \<open>github_sample_options\<close> the redirect URL carries
  \<^verbatim>\<open>client_secret=s3cr3t\<close>.
\<close>

theorem github_redirect_carries_client_secret:
  "GitHubStrategy github_sample_options = Inr github_sample
   \<and> github_router E github_sample [] =
       ([Redirect ''https://github.com/login/oauth/authorize?client_id=id123&client_secret=s3cr3t&redirect_uri=https://app.example/cb''],
        Return JUndefined)"
proof -
  have "GitHubStrategy github_sample_options = Inr github_sample"
    by (simp add: github_sample_def GitHubStrategy_def github_sample_options_def truthy_def)
  moreover have "constructURI github_sample_options None =
      encode_spec github_sample_options None"
    by (simp add: constructURI_encode_spec sample_options_entries)
  then have "constructURI github_sample_options None =
      ''client_id=id123&client_secret=s3cr3t&redirect_uri=https://app.example/cb''"
    by (simp add: encode_spec_def kept_def skipped_def key_value_def github_sample_options_def)
  ultimately show ?thesis
    by (simp add: github_router_def authorize_def github_sample_simps)
qed

theorem github_redirect_carries_client_secret_witness:
  "github_router sample_env github_sample [] =
     ([Redirect ''https://github.com/login/oauth/authorize?client_id=id123&client_secret=s3cr3t&redirect_uri=https://app.example/cb''],
      Return JUndefined)"
  using github_redirect_carries_client_secret [of sample_env] by simp

subsection \<open>C2: phase dispatch in the router\<close>

text \<open>
  C2 as stated fails: the router compares the four characters after the first
  one with \<^verbatim>\<open>code\<close>, not five characters with \<^verbatim>\<open>code=\<close>.  The query
  \<^verbatim>\<open>?codex=1\<close> does not start with \<^verbatim>\<open>code=\<close> after the \<^verbatim>\<open>?\<close>, and the
  router still runs the token exchange on it.
\<close>

theorem router_exchanges_without_code_parameter:
  "take 5 (drop 1 ''?codex=1'') \<noteq> ''code=''
   \<and> github_router offline_env github_sample ''?codex=1'' =
       ([Fetch (github_token_request github_sample ''1'')],
        Return (token_error (JError ''TypeError'' ''error sending request'')))"
  by (simp add: github_router_def github_getAuthToken_def extract_code_codex exchange_def
      offline_env_def offline_fetch_def)

text \<open>
  C2, amended.  For every inbound request: with an empty query string the
  router issues the one redirect to \<^verbatim>\<open>authURL + uriFromParams\<close> and does
  nothing else; otherwise it proceeds to the code exchange exactly when the
  four characters after the first character of the query string are
  \<^verbatim>\<open>code\<close> (in particular whenever the five characters after the \<^verbatim>\<open>?\<close> are
  \<^verbatim>\<open>code=\<close>); every other request is left unhandled: no redirect, no
  exchange, no error, the result \<^verbatim>\<open>undefined\<close>, which the code exchange
  never gives.
\<close>

theorem router_dispatch:
  "spotify_router E S search =
     (if search = [] then ([Redirect (authURL S @ uriFromParams S)], Return JUndefined)
      else if take 4 (drop 1 search) = ''code'' then spotify_getAuthToken E S search
      else ([], Return JUndefined))
   \<and> github_router E S search =
     (if search = [] then ([Redirect (authURL S @ uriFromParams S)], Return JUndefined)
      else if take 4 (drop 1 search) = ''code'' then github_getAuthToken E S search
      else ([], Return JUndefined))
   \<and> spotify_getAuthToken E S search \<noteq> ([], Return JUndefined)
   \<and> github_getAuthToken E S search \<noteq> ([], Return JUndefined)
   \<and> (take 5 (drop 1 search) = ''code='' \<longrightarrow> search \<noteq> [] \<and> take 4 (drop 1 search) = ''code'')"
proof -
  have "take 5 (drop 1 search) = ''code='' \<longrightarrow> search \<noteq> [] \<and> take 4 (drop 1 search) = ''code''"
  proof
    assume a: "take 5 (drop 1 search) = ''code=''"
    have "take 4 (take 5 (drop 1 search)) = take 4 (drop 1 search)" by simp
    with a have "take 4 (drop 1 search) = ''code''" by simp
    moreover from a have "search \<noteq> []" by auto
    ultimately show "search \<noteq> [] \<and> take 4 (drop 1 search) = ''code''" by simp
  qed
  with getAuthToken_not_unhandled [of E S search] show ?thesis
    by (simp add: spotify_router_def github_router_def authorize_def)
qed

theorem router_dispatch_witness:
  "github_router offline_env github_sample ''?state=st8&code=abc'' = ([], Return JUndefined)
   \<and> spotify_router offline_env spotify_sample [] =
       ([Redirect (authURL spotify_sample @ uriFromParams spotify_sample)], Return JUndefined)
   \<and> take 5 (drop 1 ''?code=abc'') = ''code=''
   \<and> github_router offline_env github_sample ''?code=abc''
       = github_getAuthToken offline_env github_sample ''?code=abc''"
  using router_dispatch [of offline_env github_sample "''?state=st8&code=abc''"]
    router_dispatch [of offline_env spotify_sample "[]"]
    router_dispatch [of offline_env github_sample "''?code=abc''"]
  by simp

subsection \<open>C3: failures as values\<close>

text \<open>
  C3 says that no flow phase throws, whatever the callback query, also one
  without \<^verbatim>\<open>=\<close>.  The router accepts the query \<^verbatim>\<open>?code\<close>; in
  \<^verbatim>\<open>getAuthToken\<close> the split on \<^verbatim>\<open>=\<close> then has one segment,
  \<^verbatim>\<open>URI1[1]\<close> is \<^verbatim>\<open>undefined\<close>, and \<^verbatim>\<open>URI1[1].split('&')\<close> throws a
  \<^verbatim>\<open>TypeError\<close> outside the \<^verbatim>\<open>try\<close> block: the promise rejects, in both
  strategies, before any request is made.
\<close>

theorem getAuthToken_throws_without_equals_sign:
  "spotify_router E S ''?code'' = ([], Throw (type_error_read JUndefined ''split''))
   \<and> github_router E S ''?code'' = ([], Throw (type_error_read JUndefined ''split''))"
proof -
  have "CHR ''='' \<notin> set ''?code''" and "\<not> str_includes ''?code'' ''error''"
    by simp_all
  from getAuthToken_throws [OF this] show ?thesis
    by (simp add: spotify_router_def github_router_def)
qed

theorem getAuthToken_throws_without_equals_sign_witness:
  "spotify_router sample_env spotify_sample ''?code''
     = ([], Throw (type_error_read JUndefined ''split''))
   \<and> github_router sample_env github_sample ''?code''
     = ([], Throw (type_error_read JUndefined ''split''))"
  using getAuthToken_throws_without_equals_sign [of sample_env spotify_sample]
    getAuthToken_throws_without_equals_sign [of sample_env github_sample]
  by simp

subsection \<open>C4: the profile without an id\<close>

text \<open>
  C4 as stated fails: neither strategy checks the \<^verbatim>\<open>id\<close> of the profile.
  On a profile response without \<^verbatim>\<open>id\<close> the GitHub strategy returns an
  \<^verbatim>\<open>AuthData\<close> whose \<^verbatim>\<open>providerUserId\<close> is \<^verbatim>\<open>undefined\<close>, and no error.
\<close>

theorem getAuthData_accepts_profile_without_id:
  "fetch sample_env (github_profile_request ''tok'')
     = Return (JObj [(''login'', JStr ''octocat'')])
   \<and> github_getAuthData sample_env github_sample (JObj [(''access_token'', JStr ''tok'')]) =
     ([Fetch \<lparr> http_method = ''GET'', url = ''https://api.github.com/user'',
                headers = [(''Authorization'', ''token tok'')], body = NoBody \<rparr>],
      Return (JObj [(''tokenData'', JObj [(''access_token'', JStr ''tok''),
                                          (''scope'', JUndefined),
                                          (''token_type'', JUndefined)]),
                    (''userInfo'',
                     JObj [(''provider'', JStr ''github''),
                           (''providerUserId'', JUndefined),
                           (''displayName'', JStr ''octocat''),
                           (''name'', JObj [(''familyName'', JUndefined)]),
                           (''emails'', JArr [JUndefined])])]))"
  by (simp add: github_getAuthData_def github_profile_request_def github_tokenData_def
      sample_env_def sample_fetch_def get_prop_def js_prop_def nullish_def github_sample_simps
      to_str_def)

text \<open>
  C4, amended.  Given a token response other than \<^verbatim>\<open>null\<close>: when the string
  conversion of the access token (GitHub) or of one of the five token fields
  (Spotify) throws, the profile-fetch phase makes no request and returns an
  error value.  Otherwise it makes exactly one request; it returns an error
  value when the fetch or its JSON parsing fails (and rejects when the value
  they failed with cannot itself be converted to a string) or when the profile
  parses to \<^verbatim>\<open>null\<close>; otherwise it returns an \<^verbatim>\<open>AuthData\<close> whose
  \<^verbatim>\<open>tokenData\<close> copies the fields of the token response, whose \<^verbatim>\<open>provider\<close>
  is the strategy's name and whose \<^verbatim>\<open>providerUserId\<close> is the \<^verbatim>\<open>id\<close> of the
  profile, \<^verbatim>\<open>undefined\<close> when the profile has none.
\<close>

theorem getAuthData_result:
  "\<not> nullish parsed \<Longrightarrow>
     github_getAuthData E S parsed =
       (if str_throws (js_prop parsed ''access_token'')
        then ([], Return (auth_data_error conversion_error))
        else
          ([Fetch (github_profile_request (str_text (js_prop parsed ''access_token'')))],
           case fetch E (github_profile_request (str_text (js_prop parsed ''access_token''))) of
             Throw err \<Rightarrow>
               if str_throws err then Throw conversion_error else Return (auth_data_error err)
           | Return data \<Rightarrow>
               Return (if nullish data then auth_data_error (type_error_read data ''id'')
                       else JObj [(''tokenData'', JObj (github_tokenData parsed)),
                                  (''userInfo'',
                                   JObj [(''provider'', JStr (name S)),
                                         (''providerUserId'', js_prop data ''id''),
                                         (''displayName'', js_prop data ''login''),
                                         (''name'', JObj [(''familyName'', js_prop data ''name'')]),
                                         (''emails'', JArr [js_prop data ''email''])])])))
     \<and> spotify_getAuthData E S parsed =
       (if \<exists>e \<in> set (spotify_tokenData parsed). str_throws (snd e)
        then ([], Return (auth_data_error conversion_error))
        else
          ([Fetch (spotify_profile_request S (text_entries (spotify_tokenData parsed)))],
           case fetch E (spotify_profile_request S (text_entries (spotify_tokenData parsed))) of
             Throw err \<Rightarrow>
               if str_throws err then Throw conversion_error else Return (auth_data_error err)
           | Return data \<Rightarrow>
               Return (if nullish data then auth_data_error (type_error_read data ''id'')
                       else JObj [(''tokenData'', JObj (spotify_tokenData parsed)),
                                  (''userInfo'',
                                   JObj [(''provider'', JStr (name S)),
                                         (''providerUserId'', js_prop data ''id'')])])))
     \<and> (map_of kvs ''id'' = None \<longrightarrow> js_prop (JObj kvs) ''id'' = JUndefined)"
proof -
  assume n: "\<not> nullish parsed"
  have gh: "github_getAuthData E S parsed =
       (if str_throws (js_prop parsed ''access_token'')
        then ([], Return (auth_data_error conversion_error))
        else
          ([Fetch (github_profile_request (str_text (js_prop parsed ''access_token'')))],
           case fetch E (github_profile_request (str_text (js_prop parsed ''access_token''))) of
             Throw err \<Rightarrow>
               if str_throws err then Throw conversion_error else Return (auth_data_error err)
           | Return data \<Rightarrow>
               Return (if nullish data then auth_data_error (type_error_read data ''id'')
                       else JObj [(''tokenData'', JObj (github_tokenData parsed)),
                                  (''userInfo'',
                                   JObj [(''provider'', JStr (name S)),
                                         (''providerUserId'', js_prop data ''id''),
                                         (''displayName'', js_prop data ''login''),
                                         (''name'', JObj [(''familyName'', js_prop data ''name'')]),
                                         (''emails'', JArr [js_prop data ''email''])])])))"
    using n
    by (simp add: github_getAuthData_def get_prop_def to_str_def caught_def
        split: completion.splits)
  have sp: "spotify_getAuthData E S parsed =
       (if \<exists>e \<in> set (spotify_tokenData parsed). str_throws (snd e)
        then ([], Return (auth_data_error conversion_error))
        else
          ([Fetch (spotify_profile_request S (text_entries (spotify_tokenData parsed)))],
           case fetch E (spotify_profile_request S (text_entries (spotify_tokenData parsed))) of
             Throw err \<Rightarrow>
               if str_throws err then Throw conversion_error else Return (auth_data_error err)
           | Return data \<Rightarrow>
               Return (if nullish data then auth_data_error (type_error_read data ''id'')
                       else JObj [(''tokenData'', JObj (spotify_tokenData parsed)),
                                  (''userInfo'',
                                   JObj [(''provider'', JStr (name S)),
                                         (''providerUserId'', js_prop data ''id'')])])))"
    using n
    by (simp add: spotify_getAuthData_def to_str_entries_eq get_prop_def to_str_def caught_def
        split: completion.splits)
  have "map_of kvs ''id'' = None \<longrightarrow> js_prop (JObj kvs) ''id'' = JUndefined"
    by (simp add: js_prop_def)
  with gh sp show ?thesis by blast
qed

theorem getAuthData_result_witness:
  "github_getAuthData sample_env github_sample (JObj [(''access_token'', JStr ''tok'')]) =
     ([Fetch (github_profile_request ''tok'')],
      Return (JObj [(''tokenData'', JObj (github_tokenData (JObj [(''access_token'', JStr ''tok'')]))),
                    (''userInfo'',
                     JObj [(''provider'', JStr ''github''),
                           (''providerUserId'', JUndefined),
                           (''displayName'', JStr ''octocat''),
                           (''name'', JObj [(''familyName'', JUndefined)]),
                           (''emails'', JArr [JUndefined])])]))
   \<and> github_getAuthData sample_env github_sample
       (JObj [(''access_token'', JObj [(''toString'', JNum ''1'')])]) =
     ([], Return (auth_data_error conversion_error))
   \<and> spotify_getAuthData sample_env spotify_sample
       (JObj [(''access_token'', JObj [(''toString'', JNum ''1'')])]) =
     ([], Return (auth_data_error conversion_error))"
proof -
  have n: "\<not> nullish (JObj [(''access_token'', JStr ''tok'')])"
    "\<not> nullish (JObj [(''access_token'', JObj [(''toString'', JNum ''1'')])])"
    by (simp_all add: nullish_def)
  from getAuthData_result [OF n(1), of sample_env github_sample]
    getAuthData_result [OF n(2), of sample_env github_sample]
    getAuthData_result [OF n(2), of sample_env spotify_sample]
  show ?thesis
    by (simp add: sample_env_def sample_fetch_def github_profile_request_def
        github_sample_simps js_prop_def nullish_def spotify_tokenData_def)
qed

subsection \<open>C5: the encoder\<close>

text \<open>
  C5 as stated fails in two places.  The entries are taken in the order of
  \<^verbatim>\<open>Object.entries\<close>, which is not insertion order when a key is an array
  index: \<^verbatim>\<open>{b: "1", "2": "x"}\<close> encodes to \<^verbatim>\<open>2=x&b=1\<close>, not to
  \<^verbatim>\<open>b=1&2=x\<close>.  And a value that ends in \<^verbatim>\<open>&\<close> stays at the end of the
  result: \<^verbatim>\<open>{a: "x&"}\<close> encodes to \<^verbatim>\<open>a=x&\<close>.
\<close>

theorem constructURI_index_keys_first:
  "constructURI [(''b'', ''1''), (''2'', ''x'')] None = ''2=x&b=1''
   \<and> encode_spec [(''b'', ''1''), (''2'', ''x'')] None = ''b=1&2=x''
   \<and> constructURI [(''a'', ''x&'')] None = ''a=x&''"
  by (simp add: constructURI_encode_spec encode_spec_def kept_def skipped_def key_value_def
      object_entries_def is_array_index_def is_digit_def index_value_def digit_value_def)

text \<open>
  C5, amended.  For every option mapping and skip list, \<^verbatim>\<open>constructURI\<close>
  yields the entries whose key is not skipped, each exactly once as
  \<^verbatim>\<open>key=value\<close>, in the order of \<^verbatim>\<open>Object.entries\<close> (a rearrangement of
  the mapping: the array-index keys in ascending numeric order, then the other
  keys in insertion order; insertion order itself when no key is an array
  index), joined by a single \<^verbatim>\<open>&\<close>, with none added before the first or
  after the last entry: when no kept key or value holds an \<^verbatim>\<open>&\<close> itself,
  the result has one \<^verbatim>\<open>&\<close> less than kept entries and neither starts nor
  ends with one.  The empty mapping encodes to the empty string and
  \<^verbatim>\<open>{a: "1"}\<close> encodes to \<^verbatim>\<open>a=1\<close>.
\<close>

theorem constructURI_joins_kept_entries:
  "constructURI opts skip = join_amp (map key_value (kept skip (object_entries opts)))
   \<and> set (object_entries opts) = set opts \<and> length (object_entries opts) = length opts
   \<and> filter (\<lambda>e. \<not> is_array_index (fst e)) (object_entries opts)
       = filter (\<lambda>e. \<not> is_array_index (fst e)) opts
   \<and> sorted (map (\<lambda>e. index_value (fst e))
               (filter (\<lambda>e. is_array_index (fst e)) (object_entries opts)))
   \<and> ((\<forall>e \<in> set opts. \<not> is_array_index (fst e)) \<longrightarrow> object_entries opts = opts)
   \<and> ((\<forall>e \<in> set (kept skip opts). CHR ''&'' \<notin> set (fst e) \<and> CHR ''&'' \<notin> set (snd e)) \<longrightarrow>
        count_list (constructURI opts skip) (CHR ''&'') = length (kept skip opts) - 1
        \<and> (kept skip opts \<noteq> [] \<longrightarrow> hd (constructURI opts skip) \<noteq> CHR ''&''
                                     \<and> last (constructURI opts skip) \<noteq> CHR ''&''))
   \<and> constructURI [] skip = []
   \<and> constructURI [(''a'', ''1'')] None = ''a=1''"
proof -
  let ?K = "kept skip (object_entries opts)"
  have eq: "constructURI opts skip = join_amp (map key_value ?K)"
    by (simp add: constructURI_encode_spec encode_spec_def)
  have K: "?K = object_entries (kept skip opts)"
    by (simp add: kept_def object_entries_filter)
  have Kset: "set ?K = set (kept skip opts)" and Klen: "length ?K = length (kept skip opts)"
    using object_entries_rearranges [of "kept skip opts"] by (simp_all add: K)
  have shape: "(\<forall>e \<in> set (kept skip opts). CHR ''&'' \<notin> set (fst e) \<and> CHR ''&'' \<notin> set (snd e)) \<longrightarrow>
        count_list (constructURI opts skip) (CHR ''&'') = length (kept skip opts) - 1
        \<and> (kept skip opts \<noteq> [] \<longrightarrow> hd (constructURI opts skip) \<noteq> CHR ''&''
                                     \<and> last (constructURI opts skip) \<noteq> CHR ''&'')"
  proof
    assume a: "\<forall>e \<in> set (kept skip opts). CHR ''&'' \<notin> set (fst e) \<and> CHR ''&'' \<notin> set (snd e)"
    then have "\<forall>x \<in> set (map key_value ?K). x \<noteq> [] \<and> CHR ''&'' \<notin> set x"
      using Kset by (auto simp: key_value_def)
    from join_amp_shape [OF this] Klen Kset
    show "count_list (constructURI opts skip) (CHR ''&'') = length (kept skip opts) - 1
        \<and> (kept skip opts \<noteq> [] \<longrightarrow> hd (constructURI opts skip) \<noteq> CHR ''&''
                                     \<and> last (constructURI opts skip) \<noteq> CHR ''&'')"
      by (auto simp: eq)
  qed
  have plain: "filter (\<lambda>e. \<not> is_array_index (fst e)) (object_entries opts)
       = filter (\<lambda>e. \<not> is_array_index (fst e)) opts"
    by (simp add: object_entries_def filter_sort)
  have srt: "sorted (map (\<lambda>e. index_value (fst e))
               (filter (\<lambda>e. is_array_index (fst e)) (object_entries opts)))"
    by (simp add: object_entries_def filter_sort)
  have e0: "constructURI [] skip = []"
    by (simp add: constructURI_def object_entries_def)
  have e1: "constructURI [(''a'', ''1'')] None = ''a=1''"
    by (simp add: constructURI_encode_spec encode_spec_def kept_def skipped_def key_value_def
        object_entries_def is_array_index_def is_digit_def)
  from eq object_entries_rearranges [of opts] plain srt object_entries_plain [of opts] shape e0 e1
  show ?thesis by blast
qed

theorem constructURI_joins_kept_entries_witness:
  "constructURI [(''client_id'', ''abc''), (''client_secret'', ''xyz''), (''state'', ''s1'')]
     (Some [''client_secret'']) = ''client_id=abc&state=s1''
   \<and> count_list (constructURI [(''client_id'', ''abc''), (''client_secret'', ''xyz''), (''state'', ''s1'')]
        (Some [''client_secret''])) (CHR ''&'') = 1
   \<and> constructURI [(''b'', ''1''), (''10'', ''y''), (''2'', ''x'')] None = ''2=x&10=y&b=1''"
  using constructURI_joins_kept_entries
    [of "[(''client_id'', ''abc''), (''client_secret'', ''xyz''), (''state'', ''s1'')]"
        "Some [''client_secret'']"]
    constructURI_joins_kept_entries [of "[(''b'', ''1''), (''10'', ''y''), (''2'', ''x'')]" None]
  by (simp add: skipped_def kept_def key_value_def object_entries_def is_array_index_def
      is_digit_def index_value_def digit_value_def)

subsection \<open>C6: the decoder\<close>

text \<open>
  C6.  For every input string, \<^verbatim>\<open>parseCode\<close> replaces every occurrence of
  each of the ten percent-encodings of the table by its literal character and
  leaves every other percent-encoding and every other character as it is (it
  equals the single left-to-right pass \<open>decode_spec\<close>); no table entry occurs
  in the result; \<^verbatim>\<open>a%3Db%26c\<close> decodes to \<^verbatim>\<open>a=b&c\<close>.  The loop ends on
  every input: \<open>parseCode_loop\<close> is a total function, by its termination
  proof.
\<close>

theorem parseCode_decodes_table:
  "parseCode s = decode_spec s
   \<and> (\<forall>t \<in> set toReplaceArray. \<not> str_includes (parseCode s) t)
   \<and> parseCode ''a%3Db%26c'' = ''a=b&c''"
proof -
  have "\<forall>t \<in> set toReplaceArray. \<not> str_includes (parseCode s) t"
    using parseCode_loop_decode_spec [of 0 s]
    by (auto simp: parseCode_def in_set_conv_nth)
  moreover have "parseCode ''a%3Db%26c'' = ''a=b&c''"
    by (simp add: parseCode_decode_spec decode_spec.simps replacements_def)
  ultimately show ?thesis by (simp add: parseCode_decode_spec)
qed

theorem parseCode_decodes_table_witness:
  "parseCode ''%2524%3D%3d%40x'' = ''%2524=%3d@x''
   \<and> ''%3D'' \<in> set toReplaceArray
   \<and> \<not> str_includes (parseCode ''%2524%3D%3d%40x'') ''%3D''"
proof -
  have d: "decode_spec ''%2524%3D%3d%40x'' = ''%2524=%3d@x''"
    by (simp add: decode_spec.simps replacements_def)
  have m: "''%3D'' \<in> set toReplaceArray"
    by (simp add: toReplaceArray_def replacements_def)
  from parseCode_decodes_table [of "''%2524%3D%3d%40x''"] d m show ?thesis by auto
qed

subsection \<open>C7: an error in the callback query\<close>

text \<open>
  C7.  For every callback query string that contains \<^verbatim>\<open>error\<close> anywhere, the
  code-exchange phase of either strategy returns an error value at once and
  makes no request: the token endpoint is not contacted.
\<close>

theorem getAuthToken_error_short_circuit:
  "str_includes OGURI ''error'' \<Longrightarrow>
     spotify_getAuthToken E S OGURI = ([], Return callback_error)
     \<and> github_getAuthToken E S OGURI = ([], Return callback_error)"
  by (simp add: spotify_getAuthToken_def github_getAuthToken_def)

theorem getAuthToken_error_short_circuit_witness:
  "str_includes ''?code=abc&error=access_denied'' ''error''
   \<and> spotify_getAuthToken sample_env spotify_sample ''?code=abc&error=access_denied''
       = ([], Return callback_error)
   \<and> github_getAuthToken sample_env github_sample ''?code=abc&error=access_denied''
       = ([], Return callback_error)"
proof -
  have h: "str_includes ''?code=abc&error=access_denied'' ''error''" by simp
  from getAuthToken_error_short_circuit [OF h] h show ?thesis by blast
qed

subsection \<open>C8: the decoded code in the token request\<close>

text \<open>
  C8 as stated fails for a code value that holds a raw \<^verbatim>\<open>=\<close>: the query is
  split on \<^verbatim>\<open>=\<close> first, so the code ends at the next \<^verbatim>\<open>=\<close>.  For
  \<^verbatim>\<open>?code=ab=cd&state=x\<close> the segment between the first \<^verbatim>\<open>=\<close> and the first
  \<^verbatim>\<open>&\<close> is \<^verbatim>\<open>ab=cd\<close>, and the token request carries \<^verbatim>\<open>ab\<close>.  And a
  query of that form that contains \<^verbatim>\<open>error\<close> somewhere, such as
  \<^verbatim>\<open>?code=abc&state=error1\<close>, leads to no token request at all.
\<close>

theorem extract_code_stops_at_second_equals_sign:
  "code_segment_spec ''?code=ab=cd&state=x'' = ''ab=cd''
   \<and> decode_spec ''ab=cd'' = ''ab=cd''
   \<and> extract_code ''?code=ab=cd&state=x'' = Inr ''ab''
   \<and> github_getAuthToken offline_env github_sample ''?code=ab=cd&state=x'' =
       ([Fetch (github_token_request github_sample ''ab'')],
        Return (token_error (JError ''TypeError'' ''error sending request'')))
   \<and> github_getAuthToken offline_env github_sample ''?code=abc&state=error1'' =
       ([], Return callback_error)"
proof -
  have e: "extract_code ''?code=ab=cd&state=x'' = Inr ''ab''"
    using extract_code_segment [of "''?code''" "''ab=cd&state=x''"]
    by (simp add: decode_spec.simps replacements_def)
  moreover have "code_segment_spec ''?code=ab=cd&state=x'' = ''ab=cd''"
    by (simp add: code_segment_spec_def)
  moreover have "decode_spec ''ab=cd'' = ''ab=cd''"
    by (simp add: decode_spec.simps replacements_def)
  moreover have "github_getAuthToken offline_env github_sample ''?code=ab=cd&state=x'' =
       ([Fetch (github_token_request github_sample ''ab'')],
        Return (token_error (JError ''TypeError'' ''error sending request'')))"
    by (simp add: github_getAuthToken_def e exchange_def offline_env_def offline_fetch_def)
  moreover have "github_getAuthToken offline_env github_sample ''?code=abc&state=error1'' =
       ([], Return callback_error)"
    by (simp add: github_getAuthToken_def)
  ultimately show ?thesis by blast
qed

text \<open>
  C8, amended.  For a callback query \<^verbatim>\<open>p=s\<close> whose part \<^verbatim>\<open>p\<close> holds no
  \<^verbatim>\<open>=\<close> (such as \<^verbatim>\<open>?code\<close>), the extracted code is the segment of \<^verbatim>\<open>s\<close>
  up to its first \<^verbatim>\<open>=\<close> or \<^verbatim>\<open>&\<close>, with the ten percent-encodings decoded;
  for \<^verbatim>\<open>?code=abc%26123\<close> it is \<^verbatim>\<open>abc&123\<close>.  When the query does not contain
  \<^verbatim>\<open>error\<close>, the first request of either strategy is the token request built
  from that decoded code: GitHub sends it as the \<^verbatim>\<open>code\<close> field of the JSON
  body, Spotify as \<^verbatim>\<open>code=\<close> in the form body.
\<close>

theorem token_request_carries_decoded_code:
  "(CHR ''='' \<notin> set p \<longrightarrow>
      extract_code (p @ ''='' @ s) =
        Inr (decode_spec (takeWhile (\<lambda>c. c \<noteq> CHR ''&'') (takeWhile (\<lambda>c. c \<noteq> CHR ''='') s))))
   \<and> extract_code ''?code=abc%26123'' = Inr ''abc&123''
   \<and> (\<not> str_includes q ''error'' \<and> extract_code q = Inr code \<longrightarrow>
        (\<exists>evs r. github_getAuthToken E S q = (Fetch (github_token_request S code) # evs, r))
      \<and> (\<exists>evs r. spotify_getAuthToken E S q = (Fetch (spotify_token_request E S code) # evs, r)))
   \<and> body (github_token_request S code) =
        JsonBody [(''client_id'', option_val (options S) ''client_id''),
                  (''client_secret'', option_val (options S) ''client_secret''),
                  (''redirect_uri'', option_val (options S) ''redirect_uri''),
                  (''code'', JStr code)]
   \<and> body (spotify_token_request E S code) =
        TextBody (''grant_type=authorization_code&code='' @ code @ ''&redirect_uri=''
                  @ str_text (option_val (options S) ''redirect_uri''))"
proof -
  have ex: "extract_code ''?code=abc%26123'' = Inr ''abc&123''"
    using extract_code_segment [of "''?code''" "''abc%26123''"]
    by (simp add: decode_spec.simps replacements_def)
  have sp: "body (spotify_token_request E S code) =
        TextBody (''grant_type=authorization_code&code='' @ code @ ''&redirect_uri=''
                  @ str_text (option_val (options S) ''redirect_uri''))"
    by (simp add: spotify_token_request_def constructURI_encode_spec encode_spec_def kept_def
        skipped_def key_value_def object_entries_plain is_array_index_def is_digit_def)
  have gh: "body (github_token_request S code) =
        JsonBody [(''client_id'', option_val (options S) ''client_id''),
                  (''client_secret'', option_val (options S) ''client_secret''),
                  (''redirect_uri'', option_val (options S) ''redirect_uri''),
                  (''code'', JStr code)]"
    by (simp add: github_token_request_def)
  have run: "\<not> str_includes q ''error'' \<and> extract_code q = Inr code \<longrightarrow>
        (\<exists>evs r. github_getAuthToken E S q = (Fetch (github_token_request S code) # evs, r))
      \<and> (\<exists>evs r. spotify_getAuthToken E S q = (Fetch (spotify_token_request E S code) # evs, r))"
    using exchange_starts_with_fetch
    by (simp add: github_getAuthToken_def spotify_getAuthToken_def)
  from extract_code_segment ex sp gh run show ?thesis by blast
qed

theorem token_request_carries_decoded_code_witness:
  "extract_code ''?code=abc%26123&state=st8'' = Inr ''abc&123''
   \<and> (\<exists>evs r. github_getAuthToken offline_env github_sample ''?code=abc%26123&state=st8''
                 = (Fetch (github_token_request github_sample ''abc&123'') # evs, r))"
proof -
  have e: "extract_code (''?code'' @ ''='' @ ''abc%26123&state=st8'') = Inr ''abc&123''"
    using token_request_carries_decoded_code [of "''?code''" "''abc%26123&state=st8''"]
    by (simp add: decode_spec.simps replacements_def)
  then have e': "extract_code ''?code=abc%26123&state=st8'' = Inr ''abc&123''" by simp
  have n: "\<not> str_includes ''?code=abc%26123&state=st8'' ''error''" by simp
  from token_request_carries_decoded_code
    [of _ _ "''?code=abc%26123&state=st8''" "''abc&123''" offline_env github_sample] e' n
  show ?thesis by blast
qed

subsection \<open>C9: the local strategy\<close>

text \<open>
  C9 as stated fails in its last part: the \<^verbatim>\<open>catch\<close> clause of the local
  router binds nothing and returns one fixed error, so the failure of the
  callback is not what the router returns; a callback that returns its error
  instead of throwing it has that error wrapped as \<^verbatim>\<open>userInfo\<close>; and missing
  credentials are handed to the callback like any others.
\<close>

theorem local_router_discards_callback_failure:
  "authorize_cb local_rejecting sample_credentials = Throw (JError ''Error'' ''invalid password'')
   \<and> local_router local_rejecting (Return sample_credentials)
       \<noteq> ([], Return (JError ''Error'' ''invalid password''))
   \<and> local_router local_rejecting (Return sample_credentials) = ([], Return local_router_error)
   \<and> local_router local_error_returning (Return sample_credentials) =
       ([], Return (JObj [(''userInfo'', JError ''Error'' ''invalid password'')]))
   \<and> local_router local_accepting (Return JUndefined) =
       ([], Return (JObj [(''userInfo'',
                           JObj [(''provider'', JStr ''local''), (''providerUserId'', JStr ''42'')])]))"
  by (simp add: local_router_def local_rejecting_def local_accepting_def
      local_error_returning_def LocalStrategy_def rejecting_authorize_def
      accepting_authorize_def error_returning_authorize_def local_router_error_def)

text \<open>
  C9, amended.  The local router makes no outbound call of its own.  When the
  request body is read and the injected callback returns a value, the router
  returns \<^verbatim>\<open>{ userInfo }\<close> holding that value.  When reading the body or the
  callback throws, it returns the fixed error value
  \<^verbatim>\<open>ERROR in router: No Username or Password submitted for authorization\<close>,
  whatever was thrown.
\<close>

theorem local_router_result:
  "fst (local_router L body_value) = []
   \<and> (body_value = Return credentials \<and> authorize_cb L credentials = Return userInfo \<longrightarrow>
        snd (local_router L body_value) = Return (JObj [(''userInfo'', userInfo)]))
   \<and> ((\<exists>err. body_value = Throw err)
        \<or> (\<exists>err. body_value = Return credentials \<and> authorize_cb L credentials = Throw err) \<longrightarrow>
        snd (local_router L body_value) = Return local_router_error)"
  by (auto simp: local_router_def split: completion.splits)

theorem local_router_result_witness:
  "local_router local_accepting (Return sample_credentials) =
     ([], Return (JObj [(''userInfo'',
                         JObj [(''provider'', JStr ''local''), (''providerUserId'', JStr ''42'')])]))
   \<and> local_router local_rejecting (Return sample_credentials) = ([], Return local_router_error)"
proof -
  have a: "authorize_cb local_accepting sample_credentials =
      Return (JObj [(''provider'', JStr ''local''), (''providerUserId'', JStr ''42'')])"
    by (simp add: local_accepting_def LocalStrategy_def accepting_authorize_def)
  have r: "authorize_cb local_rejecting sample_credentials =
      Throw (JError ''Error'' ''invalid password'')"
    by (simp add: local_rejecting_def LocalStrategy_def rejecting_authorize_def)
  from local_router_result [of local_accepting "Return sample_credentials" sample_credentials
      "JObj [(''provider'', JStr ''local''), (''providerUserId'', JStr ''42'')]"] a
  have 1: "local_router local_accepting (Return sample_credentials) =
     ([], Return (JObj [(''userInfo'',
                         JObj [(''provider'', JStr ''local''), (''providerUserId'', JStr ''42'')])]))"
    by (simp add: prod_eq_iff)
  from local_router_result [of local_rejecting "Return sample_credentials" sample_credentials] r
  have 2: "local_router local_rejecting (Return sample_credentials) = ([], Return local_router_error)"
    by (simp add: prod_eq_iff)
  from 1 2 show ?thesis by simp
qed

subsection \<open>C10: the mandatory options\<close>

text \<open>
  C10 as stated fails for Spotify, whose constructor also tests
  \<^verbatim>\<open>options.state\<close>: with \<^verbatim>\<open>client_id\<close>, \<^verbatim>\<open>client_secret\<close> and
  \<^verbatim>\<open>redirect_uri\<close> present and non-empty but no \<^verbatim>\<open>state\<close>, it throws.
\<close>

theorem spotify_constructor_requires_state:
  "map_of github_sample_options ''client_id'' = Some ''id123''
   \<and> map_of github_sample_options ''client_secret'' = Some ''s3cr3t''
   \<and> map_of github_sample_options ''redirect_uri'' = Some ''https://app.example/cb''
   \<and> SpotifyStrategy github_sample_options =
       Inl (JError ''Error'' ''ERROR in SpotifyStrategy constructor: Missing required arguments'')"
  by (simp add: SpotifyStrategy_def github_sample_options_def truthy_def)

text \<open>
  C10, amended.  The GitHub constructor throws exactly when one of
  \<^verbatim>\<open>client_id\<close>, \<^verbatim>\<open>redirect_uri\<close>, \<^verbatim>\<open>client_secret\<close> is missing or empty; the
  Spotify constructor throws exactly when one of \<^verbatim>\<open>client_id\<close>,
  \<^verbatim>\<open>redirect_uri\<close>, \<^verbatim>\<open>state\<close>, \<^verbatim>\<open>client_secret\<close> is missing or empty.  No
  other key (\<^verbatim>\<open>scope\<close>, \<^verbatim>\<open>response_type\<close>, ...) is needed.
\<close>

theorem constructor_throws_iff:
  "(isl (GitHubStrategy opts) \<longleftrightarrow>
      (\<exists>k \<in> {''client_id'', ''redirect_uri'', ''client_secret''}.
         map_of opts k = None \<or> map_of opts k = Some []))
   \<and> (isl (SpotifyStrategy opts) \<longleftrightarrow>
      (\<exists>k \<in> {''client_id'', ''redirect_uri'', ''state'', ''client_secret''}.
         map_of opts k = None \<or> map_of opts k = Some []))"
proof -
  have t: "\<And>v. \<not> truthy v \<longleftrightarrow> v = None \<or> v = Some []"
    by (simp add: truthy_def split: option.splits)
  show ?thesis
    by (simp add: GitHubStrategy_def SpotifyStrategy_def t)
qed

theorem constructor_throws_iff_witness:
  "isl (GitHubStrategy [(''client_id'', ''id123''), (''client_secret'', []), (''redirect_uri'', ''cb'')])
   \<and> \<not> isl (GitHubStrategy github_sample_options)
   \<and> isl (SpotifyStrategy github_sample_options)
   \<and> \<not> isl (SpotifyStrategy spotify_sample_options)"
  using constructor_throws_iff [of "[(''client_id'', ''id123''), (''client_secret'', []), (''redirect_uri'', ''cb'')]"]
    constructor_throws_iff [of github_sample_options]
    constructor_throws_iff [of spotify_sample_options]
  by (simp add: github_sample_options_def spotify_sample_options_def)

end
